theory Spec2Isabelle
  imports Complex_Main
begin

section \<open>The sensors system of ign-gazebo (src/systems/sensors/Sensors.cc)\<close>

text \<open>
  The file embeds \<^verbatim>\<open>SensorsPrivate\<close> and the \<^verbatim>\<open>Sensors\<close> system: the render worker
  (\<^verbatim>\<open>WaitForInit\<close>, \<^verbatim>\<open>RunOnce\<close>, \<^verbatim>\<open>RenderThread\<close>), the lifecycle (\<^verbatim>\<open>Run\<close>, \<^verbatim>\<open>Stop\<close>), the
  per-step entry point \<^verbatim>\<open>PostUpdate\<close> and \<^verbatim>\<open>CreateSensor\<close>.

  Conventions of the embedding.
  \<^item> A \<^verbatim>\<open>common::Time\<close> is a real number of seconds; the rounding of the library's
    second/nanosecond pair is outside the model.
  \<^item> A block of code that runs under \<^verbatim>\<open>renderMutex\<close> is one atomic function on the
    state. A \<^verbatim>\<open>renderCv.wait(lock, pred)\<close> whose predicate is false gives the result
    \<open>Blocked\<close>: the caller stays in the wait and has changed nothing since it took
    the lock.
  \<^item> Calls into collaborators (render utility, scene, sensor manager), the
    notifications of the condition variable, thread creation and join, \<^verbatim>\<open>ignerr\<close>
    messages and the writes of the render pass to the mask are appended, in program
    order, to the \<open>trace\<close> of the state. \<^verbatim>\<open>igndbg\<close> and profiler lines are left out.
  \<^item> What the collaborators return is a parameter (\<open>externals\<close>). A call into the
    render utility is an event and nothing more: when \<^verbatim>\<open>renderUtil.Update()\<close> calls
    \<^verbatim>\<open>CreateSensor\<close> back, that call is a \<open>CreateSensor\<close> of its own here.
  \<^item> \<open>0.9 / UpdateRate\<close> is real division; for an update rate of zero the C++ double
    is infinite and the model's value means nothing, so the statements about deadlines
    ask for a positive rate.
\<close>

subsection \<open>Data\<close>

type_synonym SensorId = nat
type_synonym Time = real

text \<open>\<^verbatim>\<open>sensors::NO_SENSOR\<close> of ign-sensors, the id of no sensor.\<close>

definition NO_SENSOR :: SensorId where
  "NO_SENSOR = 0"

text \<open>\<^verbatim>\<open>sdf::SensorType\<close> and the part of \<^verbatim>\<open>sdf::Sensor\<close> that \<^verbatim>\<open>CreateSensor\<close> reads.\<close>

datatype SensorType =
  NONE | ALTIMETER | CAMERA | CONTACT | DEPTH_CAMERA | GPU_LIDAR | IMU | LIDAR
  | MAGNETOMETER | RGBD_CAMERA

record sdf_Sensor =
  sdf_Type :: SensorType
  sdf_Name :: string

text \<open>
  A \<^verbatim>\<open>sensors::Sensor\<close> object. \<open>isRenderingSensor\<close> says whether
  \<^verbatim>\<open>dynamic_cast<sensors::RenderingSensor *>\<close> succeeds on it; the last three fields are
  what \<^verbatim>\<open>SetScene\<close>, \<^verbatim>\<open>SetParent\<close> and \<^verbatim>\<open>SetManualSceneUpdate\<close> store.
\<close>

record Sensor =
  Id_of :: SensorId
  Name :: string
  UpdateRate :: real
  NextUpdateTime :: Time
  isRenderingSensor :: bool
  sensorScene :: "nat option"
  sensorParent :: string
  manualSceneUpdate :: bool

text \<open>
  The sensor manager owns the sensors; \<^verbatim>\<open>Manager::Sensor(id)\<close> is a lookup by id that
  returns a null pointer (\<open>None\<close>) when there is none.
\<close>

definition Manager_Sensor :: "Sensor list \<Rightarrow> SensorId \<Rightarrow> Sensor option" where
  "Manager_Sensor m i = find (\<lambda>x. Id_of x = i) m"

fun Manager_modify :: "SensorId \<Rightarrow> (Sensor \<Rightarrow> Sensor) \<Rightarrow> Sensor list \<Rightarrow> Sensor list" where
  "Manager_modify i f [] = []"
| "Manager_modify i f (x # xs) =
     (if Id_of x = i then f x # xs else x # Manager_modify i f xs)"

text \<open>What the collaborators answer: the scene pointer the render utility holds after
  \<^verbatim>\<open>Init\<close> (\<open>None\<close> is a null pointer), the effect of \<^verbatim>\<open>Manager::RunOnce\<close> on the
  sensors, and the id and sensors after \<^verbatim>\<open>Manager::CreateSensor\<close>.\<close>

record externals =
  renderUtil_Scene :: "nat option"
  manager_RunOnce :: "Time \<Rightarrow> Sensor list \<Rightarrow> Sensor list"
  manager_CreateSensor :: "sdf_Sensor \<Rightarrow> Sensor list \<Rightarrow> SensorId \<times> Sensor list"

datatype event =
  RenderUtil_Init
  | RenderUtil_Update
  | RenderUtil_UpdateFromECM
  | Mask_Set SensorId Time
  | Scene_PreRender
  | Manager_RunOnce Time
  | Notify_one
  | Notify_all
  | Thread_Spawn
  | Thread_Join
  | Err string

text \<open>Where the render thread stands: at the loop test of \<^verbatim>\<open>WaitForInit\<close>, in its wait,
  at the loop test of \<^verbatim>\<open>RenderThread\<close>, in the wait of \<^verbatim>\<open>RunOnce\<close>, returned from
  \<^verbatim>\<open>RenderThread\<close>, or stopped by a null dereference.\<close>

datatype worker_pc = InitCheck | InitWait | LoopCheck | RunOnceWait | Exited | Crashed

text \<open>
  The fields of \<^verbatim>\<open>SensorsPrivate\<close>. \<open>sensorIds\<close> is the \<^verbatim>\<open>std::set\<close> in iteration order
  (ascending); \<open>renderThread\<close> is \<open>None\<close> when the \<^verbatim>\<open>std::thread\<close> is not joinable and
  \<open>Some pc\<close> when it is; \<open>activeSensors\<close> holds the sensors the pointers refer to.
\<close>

record SensorsPrivate =
  sensorManager :: "Sensor list"
  initialized :: bool
  sensorIds :: "SensorId list"
  scene :: "nat option"
  running :: bool
  doInit :: bool
  updateAvailable :: bool
  renderThread :: "worker_pc option"
  updateTime :: Time
  activeSensors :: "Sensor list"
  sensorMask :: "SensorId \<rightharpoonup> Time"
  trace :: "event list"

definition emit :: "event \<Rightarrow> SensorsPrivate \<Rightarrow> SensorsPrivate" where
  "emit e s = s\<lparr>trace := trace s @ [e]\<rparr>"

text \<open>The state a freshly constructed \<^verbatim>\<open>Sensors\<close> system holds.\<close>

definition constructed :: SensorsPrivate where
  "constructed =
     \<lparr>sensorManager = [], initialized = False, sensorIds = [], scene = None,
      running = False, doInit = False, updateAvailable = False, renderThread = None,
      updateTime = 0, activeSensors = [], sensorMask = Map.empty, trace = []\<rparr>"

text \<open>How a function that may wait, return early or dereference a null pointer ends.\<close>

datatype outcome =
  Blocked SensorsPrivate
  | Shutdown SensorsPrivate
  | Done SensorsPrivate
  | NullDeref SensorsPrivate

fun state_of :: "outcome \<Rightarrow> SensorsPrivate" where
  "state_of (Blocked s) = s"
| "state_of (Shutdown s) = s"
| "state_of (Done s) = s"
| "state_of (NullDeref s) = s"

subsection \<open>The render worker\<close>

text \<open>One turn of the loop of \<^verbatim>\<open>WaitForInit\<close>, from the wait to the end of the body.\<close>

definition WaitForInit_body :: "externals \<Rightarrow> SensorsPrivate \<Rightarrow> outcome" where
  "WaitForInit_body ext s =
     (if \<not> (doInit s \<or> \<not> running s) then Blocked s
      else
        let s1 = (if doInit s
                  then (emit RenderUtil_Init s)
                         \<lparr>scene := renderUtil_Scene ext, initialized := True\<rparr>
                  else s)
        in Done (emit Notify_one (s1\<lparr>updateAvailable := False\<rparr>)))"

text \<open>The loop of \<^verbatim>\<open>RunOnce\<close> over the active sensors that writes the mask.\<close>

fun maskActive :: "Sensor list \<Rightarrow> SensorsPrivate \<Rightarrow> SensorsPrivate" where
  "maskActive [] s = s"
| "maskActive (x # xs) s =
     maskActive xs
       (emit (Mask_Set (Id_of x) (updateTime s + 0.9 / UpdateRate x))
          (s\<lparr>sensorMask := (sensorMask s)(Id_of x \<mapsto> updateTime s + 0.9 / UpdateRate x)\<rparr>))"

definition complete :: "SensorsPrivate \<Rightarrow> SensorsPrivate" where
  "complete s = emit Notify_one (s\<lparr>updateAvailable := False\<rparr>)"

definition RunOnce :: "externals \<Rightarrow> SensorsPrivate \<Rightarrow> outcome" where
  "RunOnce ext s =
     (if \<not> (\<not> running s \<or> updateAvailable s) then Blocked s
      else if \<not> running s then Shutdown s
      else
        let s1 = emit RenderUtil_Update s in
        if activeSensors s1 \<noteq> [] then
          let s2 = maskActive (activeSensors s1) s1 in
          (case scene s2 of
             None \<Rightarrow> NullDeref s2
           | Some sc \<Rightarrow>
               let s3 = emit Scene_PreRender s2;
                   s4 = emit (Manager_RunOnce (updateTime s3))
                          (s3\<lparr>sensorManager :=
                                manager_RunOnce ext (updateTime s3) (sensorManager s3)\<rparr>);
                   s5 = s4\<lparr>activeSensors := []\<rparr>
               in Done (complete s5))
        else Done (complete s1))"

text \<open>
  One step of \<^verbatim>\<open>RenderThread\<close>. \<open>None\<close>: the thread cannot move (it waits, has ended,
  or there is no thread).
\<close>

definition RenderThread_step :: "externals \<Rightarrow> SensorsPrivate \<Rightarrow> SensorsPrivate option" where
  "RenderThread_step ext s =
     (case renderThread s of
        None \<Rightarrow> None
      | Some InitCheck \<Rightarrow>
          Some (s\<lparr>renderThread :=
                    Some (if \<not> initialized s \<and> running s then InitWait else LoopCheck)\<rparr>)
      | Some InitWait \<Rightarrow>
          (case WaitForInit_body ext s of
             Done s' \<Rightarrow> Some (s'\<lparr>renderThread := Some InitCheck\<rparr>)
           | _ \<Rightarrow> None)
      | Some LoopCheck \<Rightarrow>
          Some (s\<lparr>renderThread := Some (if running s then RunOnceWait else Exited)\<rparr>)
      | Some RunOnceWait \<Rightarrow>
          (case RunOnce ext s of
             Blocked s' \<Rightarrow> None
           | Shutdown s' \<Rightarrow> Some (s'\<lparr>renderThread := Some LoopCheck\<rparr>)
           | Done s' \<Rightarrow> Some (s'\<lparr>renderThread := Some LoopCheck\<rparr>)
           | NullDeref s' \<Rightarrow> Some (s'\<lparr>renderThread := Some Crashed\<rparr>))
      | Some Exited \<Rightarrow> None
      | Some Crashed \<Rightarrow> None)"

text \<open>The render thread left alone for at most \<open>n\<close> steps.\<close>

fun RenderThread_steps :: "nat \<Rightarrow> externals \<Rightarrow> SensorsPrivate \<Rightarrow> SensorsPrivate" where
  "RenderThread_steps 0 ext s = s"
| "RenderThread_steps (Suc n) ext s =
     (case RenderThread_step ext s of
        None \<Rightarrow> s
      | Some s' \<Rightarrow> RenderThread_steps n ext s')"

subsection \<open>Lifecycle\<close>

text \<open>
  \<^verbatim>\<open>Run\<close> sets the flag, constructs the new thread and move-assigns it to
  \<open>renderThread\<close>; assigning to a joinable \<^verbatim>\<open>std::thread\<close> calls \<^verbatim>\<open>std::terminate\<close>.
\<close>

datatype run_result = Started SensorsPrivate | StdTerminate SensorsPrivate

definition Run :: "SensorsPrivate \<Rightarrow> run_result" where
  "Run s =
     (let s1 = s\<lparr>running := True\<rparr>;
          s2 = emit Thread_Spawn s1
      in if renderThread s2 \<noteq> None then StdTerminate s2
         else Started (s2\<lparr>renderThread := Some InitCheck\<rparr>))"

fun run_state :: "run_result \<Rightarrow> SensorsPrivate" where
  "run_state (Started s) = s"
| "run_state (StdTerminate s) = s"

text \<open>\<^verbatim>\<open>Stop\<close>: the part under the lock with the notification, then the join, which
  waits until the render thread has returned.\<close>

definition Stop_signal :: "SensorsPrivate \<Rightarrow> SensorsPrivate" where
  "Stop_signal s = emit Notify_all (s\<lparr>running := False\<rparr>)"

definition Stop_join :: "SensorsPrivate \<Rightarrow> outcome" where
  "Stop_join s =
     (case renderThread s of
        None \<Rightarrow> Done s
      | Some Exited \<Rightarrow> Done (emit Thread_Join (s\<lparr>renderThread := None\<rparr>))
      | Some pc \<Rightarrow> Blocked s)"

definition Stop :: "SensorsPrivate \<Rightarrow> outcome" where
  "Stop s = Stop_join (Stop_signal s)"

subsection \<open>The simulation step\<close>

text \<open>The loop of \<^verbatim>\<open>PostUpdate\<close> over \<open>sensorIds\<close>: the sensors collected so far and the
  mask are threaded through.\<close>

definition asRendering :: "Sensor option \<Rightarrow> Sensor option" where
  "asRendering p = (case p of None \<Rightarrow> None | Some x \<Rightarrow> if isRenderingSensor x then Some x else None)"

definition pushIfDue :: "Time \<Rightarrow> Sensor option \<Rightarrow> Sensor list \<Rightarrow> Sensor list" where
  "pushIfDue t rs active =
     (case rs of
        None \<Rightarrow> active
      | Some x \<Rightarrow> if NextUpdateTime x \<le> t then active @ [x] else active)"

fun scanSensors ::
  "Time \<Rightarrow> Sensor list \<Rightarrow> SensorId list \<Rightarrow> Sensor list \<times> (SensorId \<rightharpoonup> Time)
     \<Rightarrow> Sensor list \<times> (SensorId \<rightharpoonup> Time)" where
  "scanSensors t m [] (active, smask) = (active, smask)"
| "scanSensors t m (i # ids) (active, smask) =
     (let rs = asRendering (Manager_Sensor m i) in
      case smask i of
        Some d \<Rightarrow>
          if d \<le> t then scanSensors t m ids (pushIfDue t rs active, smask(i := None))
          else scanSensors t m ids (active, smask)
      | None \<Rightarrow> scanSensors t m ids (pushIfDue t rs active, smask))"

text \<open>The scan as \<^verbatim>\<open>PostUpdate\<close> starts it: nothing collected yet, the mask of the state.\<close>

definition PostUpdate_scan :: "Time \<Rightarrow> SensorsPrivate \<Rightarrow> Sensor list \<times> (SensorId \<rightharpoonup> Time)" where
  "PostUpdate_scan t s = scanSensors t (sensorManager s) (sensorIds s) ([], sensorMask s)"

text \<open>The block of \<^verbatim>\<open>PostUpdate\<close> under \<open>renderMutex\<close> that hands the request over.\<close>

definition PostUpdate_gate :: "Sensor list \<Rightarrow> Time \<Rightarrow> SensorsPrivate \<Rightarrow> outcome" where
  "PostUpdate_gate active t s =
     (if \<not> (\<not> running s \<or> \<not> updateAvailable s) then Blocked s
      else if \<not> running s then Shutdown s
      else Done (emit Notify_one
                   (s\<lparr>activeSensors := active, updateTime := t, updateAvailable := True\<rparr>)))"

text \<open>
  \<^verbatim>\<open>PostUpdate\<close> for simulated time \<open>t\<close>. \<open>hasRendering\<close>: the entity-component manager
  has a camera, depth camera, GPU lidar or RGBD camera component; \<open>pending\<close>: what
  \<^verbatim>\<open>renderUtil.PendingSensors()\<close> returns. \<open>NoGate\<close>: the function returned without
  entering the last block.
\<close>

datatype post_result = NoGate SensorsPrivate | Gate outcome

definition PostUpdate_doInit :: "bool \<Rightarrow> SensorsPrivate \<Rightarrow> SensorsPrivate" where
  "PostUpdate_doInit hasRendering s =
     (if \<not> initialized s \<and> hasRendering then emit Notify_one (s\<lparr>doInit := True\<rparr>) else s)"

definition PostUpdate :: "Time \<Rightarrow> bool \<Rightarrow> int \<Rightarrow> SensorsPrivate \<Rightarrow> post_result" where
  "PostUpdate t hasRendering pending s =
     (let s1 = PostUpdate_doInit hasRendering s in
      if running s1 \<and> initialized s1 then
        let s2 = emit RenderUtil_UpdateFromECM s1;
            (active, smask) = PostUpdate_scan t s2;
            s3 = s2\<lparr>sensorMask := smask\<rparr>
        in if active \<noteq> [] \<or> pending > 0 then Gate (PostUpdate_gate active t s3)
           else NoGate s3
      else NoGate s1)"

fun post_state :: "post_result \<Rightarrow> SensorsPrivate" where
  "post_state (NoGate s) = s"
| "post_state (Gate r) = state_of r"

text \<open>The state in which \<^verbatim>\<open>PostUpdate\<close> reaches the test before the hand-over block: the
  render utility updated from the entity-component manager, the mask as the scan left it.\<close>

definition scanned :: "Time \<Rightarrow> SensorsPrivate \<Rightarrow> SensorsPrivate" where
  "scanned t s = (emit RenderUtil_UpdateFromECM s)\<lparr>sensorMask := snd (PostUpdate_scan t s)\<rparr>"

subsection \<open>Creating a sensor\<close>

datatype create_result = Returned string SensorsPrivate | NullPointer SensorsPrivate

fun create_state :: "create_result \<Rightarrow> SensorsPrivate" where
  "create_state (Returned n s) = s"
| "create_state (NullPointer s) = s"

definition CreateSensor ::
  "externals \<Rightarrow> sdf_Sensor \<Rightarrow> string \<Rightarrow> SensorsPrivate \<Rightarrow> create_result" where
  "CreateSensor ext sdf parentName s =
     (if sdf_Type sdf = NONE
      then Returned [] (emit (Err ''Unable to create sensor. SDF sensor type is NONE.'') s)
      else
        let (sensorId, m) = manager_CreateSensor ext sdf (sensorManager s);
            s1 = s\<lparr>sensorManager := m\<rparr>;
            sensor = Manager_Sensor m sensorId;
            s2 = s1\<lparr>sensorIds := insort_insert sensorId (sensorIds s1)\<rparr>;
            s3 = (if sensor = None \<or> NO_SENSOR = Id_of (the sensor)
                  then emit (Err (''Failed to create sensor ['' @ sdf_Name sdf @ '']'')) s2
                  else s2)
        in case asRendering sensor of
             None \<Rightarrow> NullPointer s3
           | Some x \<Rightarrow>
               Returned (Name x)
                 (s3\<lparr>sensorManager :=
                       Manager_modify sensorId
                         (\<lambda>y. y\<lparr>sensorScene := scene s3, sensorParent := parentName,
                                manualSceneUpdate := True\<rparr>)
                         (sensorManager s3)\<rparr>))"

subsection \<open>Notions the properties are stated with\<close>

text \<open>The number of render passes begun: every pass starts with \<^verbatim>\<open>renderUtil.Update()\<close>.\<close>

definition passes :: "SensorsPrivate \<Rightarrow> nat" where
  "passes s = length (filter (\<lambda>e. e = RenderUtil_Update) (trace s))"

text \<open>A registered id is due at \<open>t\<close> when its sensor is a rendering sensor whose next update
  time has come, and unmasked when the mask has no entry for it or the deadline has passed.\<close>

definition isDue :: "Time \<Rightarrow> SensorsPrivate \<Rightarrow> SensorId \<Rightarrow> bool" where
  "isDue t s i =
     (case asRendering (Manager_Sensor (sensorManager s) i) of
        None \<Rightarrow> False
      | Some x \<Rightarrow> NextUpdateTime x \<le> t)"

definition unmasked :: "Time \<Rightarrow> SensorsPrivate \<Rightarrow> SensorId \<Rightarrow> bool" where
  "unmasked t s i = (case sensorMask s i of None \<Rightarrow> True | Some d \<Rightarrow> d \<le> t)"

definition someSensorDue :: "Time \<Rightarrow> SensorsPrivate \<Rightarrow> bool" where
  "someSensorDue t s = list_ex (\<lambda>i. unmasked t s i \<and> isDue t s i) (sensorIds s)"

text \<open>The mask writes of one pass at time \<open>t\<close> for the sensors \<open>xs\<close>, in order.\<close>

definition deadlines :: "Time \<Rightarrow> Sensor list \<Rightarrow> event list" where
  "deadlines t xs = map (\<lambda>x. Mask_Set (Id_of x) (t + 0.9 / UpdateRate x)) xs"

text \<open>A state with the render thread moved into the wait of \<^verbatim>\<open>WaitForInit\<close>.\<close>

definition waitingForInit :: "SensorsPrivate \<Rightarrow> SensorsPrivate" where
  "waitingForInit s = s\<lparr>renderThread := Some InitWait\<rparr>"

text \<open>The locked part of \<^verbatim>\<open>Stop\<close>, then the render thread for at most \<open>k\<close> steps.\<close>

definition stoppedAfter :: "nat \<Rightarrow> externals \<Rightarrow> SensorsPrivate \<Rightarrow> SensorsPrivate" where
  "stoppedAfter k ext u = RenderThread_steps k ext (Stop_signal u)"

subsection \<open>Example collaborators and states\<close>

text \<open>A sensor manager that numbers its sensors from 1, fails on an IMU descriptor and
  builds a rendering sensor for the four camera-like kinds only.\<close>

definition example_CreateSensor :: "sdf_Sensor \<Rightarrow> Sensor list \<Rightarrow> SensorId \<times> Sensor list" where
  "example_CreateSensor sdf m =
     (if sdf_Type sdf = IMU then (NO_SENSOR, m)
      else
        (Suc (length m),
         m @ [\<lparr>Id_of = Suc (length m), Name = sdf_Name sdf, UpdateRate = 10,
                NextUpdateTime = 0,
                isRenderingSensor = (sdf_Type sdf \<in> {CAMERA, DEPTH_CAMERA, GPU_LIDAR, RGBD_CAMERA}),
                sensorScene = None, sensorParent = [], manualSceneUpdate = False\<rparr>]))"

definition example_ext :: externals where
  "example_ext =
     \<lparr>renderUtil_Scene = Some 0, manager_RunOnce = (\<lambda>t m. m),
      manager_CreateSensor = example_CreateSensor\<rparr>"

text \<open>A 10 Hz camera with id 1; the system right after \<^verbatim>\<open>Run\<close>; after the worker has
  returned; initialised with the camera registered and the worker idle; with a request for
  the camera at time 0 handed over; initialised with no sensor at all.\<close>

definition camA :: Sensor where
  "camA = \<lparr>Id_of = 1, Name = ''A'', UpdateRate = 10, NextUpdateTime = 0,
            isRenderingSensor = True, sensorScene = Some 0, sensorParent = ''model'',
            manualSceneUpdate = True\<rparr>"

definition started :: SensorsPrivate where
  "started = constructed\<lparr>running := True, renderThread := Some InitCheck, trace := [Thread_Spawn]\<rparr>"

definition exited :: SensorsPrivate where
  "exited = constructed\<lparr>renderThread := Some Exited, trace := [Thread_Spawn, Notify_all, Notify_one]\<rparr>"

definition ready :: SensorsPrivate where
  "ready = constructed\<lparr>sensorManager := [camA], initialized := True, sensorIds := [1],
             scene := Some 0, running := True, renderThread := Some RunOnceWait\<rparr>"

definition requested :: SensorsPrivate where
  "requested = ready\<lparr>activeSensors := [camA], updateTime := 0, updateAvailable := True\<rparr>"


text \<open>The state after the worker has rendered the request.\<close>

definition rendered :: SensorsPrivate where
  "rendered = state_of (RunOnce example_ext requested)"

section \<open>Auxiliary facts\<close>

lemma Manager_Sensor_Id: "Manager_Sensor m i = Some x \<Longrightarrow> Id_of x = i"
  unfolding Manager_Sensor_def by (induction m) (auto split: if_splits)

lemma Manager_Sensor_modify:
  "Manager_Sensor m i = Some x \<Longrightarrow> Id_of (f x) = i \<Longrightarrow>
   Manager_Sensor (Manager_modify i f m) i = Some (f x)"
  unfolding Manager_Sensor_def by (induction m) (auto split: if_splits)

lemma maskActive_frame:
  "updateTime (maskActive xs s) = updateTime s
   \<and> running (maskActive xs s) = running s
   \<and> scene (maskActive xs s) = scene s
   \<and> sensorManager (maskActive xs s) = sensorManager s
   \<and> activeSensors (maskActive xs s) = activeSensors s
   \<and> renderThread (maskActive xs s) = renderThread s
   \<and> initialized (maskActive xs s) = initialized s
   \<and> sensorIds (maskActive xs s) = sensorIds s
   \<and> doInit (maskActive xs s) = doInit s
   \<and> updateAvailable (maskActive xs s) = updateAvailable s"
  by (induction xs arbitrary: s) (simp_all add: emit_def)

lemma maskActive_trace:
  "trace (maskActive xs s) = trace s @ deadlines (updateTime s) xs"
  by (induction xs arbitrary: s) (simp_all add: emit_def deadlines_def maskActive_frame)

lemma maskActive_other:
  "i \<notin> Id_of ` set xs \<Longrightarrow> sensorMask (maskActive xs s) i = sensorMask s i"
  by (induction xs arbitrary: s) (auto simp: emit_def)

lemma maskActive_deadline:
  "distinct (map Id_of xs) \<Longrightarrow> x \<in> set xs \<Longrightarrow>
   sensorMask (maskActive xs s) (Id_of x) = Some (updateTime s + 0.9 / UpdateRate x)"
proof (induction xs arbitrary: s)
  case Nil
  then show ?case by simp
next
  case (Cons y ys)
  show ?case
  proof (cases "x = y")
    case True
    with Cons.prems have "Id_of x \<notin> Id_of ` set ys" by auto
    then show ?thesis using True by (simp add: maskActive_other emit_def)
  next
    case False
    with Cons.prems have "x \<in> set ys" "distinct (map Id_of ys)" by auto
    then show ?thesis using Cons.IH by (simp add: emit_def)
  qed
qed

lemma asRendering_Id: "asRendering (Manager_Sensor m i) = Some x \<Longrightarrow> Id_of x = i"
  by (auto simp: asRendering_def Manager_Sensor_Id split: option.splits if_splits)

lemma pushIfDue_ids:
  "(\<exists>x\<in>set (pushIfDue t (asRendering (Manager_Sensor m j)) a). Id_of x = i) \<longleftrightarrow>
     (\<exists>x\<in>set a. Id_of x = i)
     \<or> (j = i \<and> (case asRendering (Manager_Sensor m j) of None \<Rightarrow> False | Some x \<Rightarrow> NextUpdateTime x \<le> t))"
  by (auto simp: pushIfDue_def dest: asRendering_Id split: option.splits)

lemma scan_mask:
  "snd (scanSensors t m ids (a, k)) i =
     (case k i of
        None \<Rightarrow> None
      | Some d \<Rightarrow> if d \<le> t \<and> i \<in> set ids then None else Some d)"
  by (induction ids arbitrary: a k) (auto simp: Let_def split: option.splits)

lemma scan_active:
  "(\<exists>x\<in>set (fst (scanSensors t m ids (a, k))). Id_of x = i) \<longleftrightarrow>
     (\<exists>x\<in>set a. Id_of x = i)
     \<or> (i \<in> set ids \<and> (case k i of None \<Rightarrow> True | Some d \<Rightarrow> d \<le> t)
         \<and> (case asRendering (Manager_Sensor m i) of
               None \<Rightarrow> False | Some x \<Rightarrow> NextUpdateTime x \<le> t))"
proof (induction ids arbitrary: a k)
  case Nil
  then show ?case by simp
next
  case (Cons j ids)
  let ?rs = "asRendering (Manager_Sensor m j)"
  show ?case
  proof (cases "k j")
    case None
    have step: "scanSensors t m (j # ids) (a, k) = scanSensors t m ids (pushIfDue t ?rs a, k)"
      using None by simp
    show ?thesis
      unfolding step Cons.IH pushIfDue_ids using None by (cases "j = i") auto
  next
    case (Some d)
    show ?thesis
    proof (cases "d \<le> t")
      case True
      have step: "scanSensors t m (j # ids) (a, k) =
                  scanSensors t m ids (pushIfDue t ?rs a, k(j := None))"
        using Some True by simp
      show ?thesis
        unfolding step Cons.IH pushIfDue_ids using Some True by (cases "j = i") auto
    next
      case False
      have step: "scanSensors t m (j # ids) (a, k) = scanSensors t m ids (a, k)"
        using Some False by simp
      show ?thesis
        unfolding step Cons.IH using Some False by (cases "j = i") auto
    qed
  qed
qed

lemma scan_nonempty:
  "fst (PostUpdate_scan t s) \<noteq> [] \<longleftrightarrow> someSensorDue t s"
proof -
  have "fst (PostUpdate_scan t s) \<noteq> [] \<longleftrightarrow>
        (\<exists>i. \<exists>x\<in>set (fst (PostUpdate_scan t s)). Id_of x = i)"
    by (cases "fst (PostUpdate_scan t s)") auto
  also have "\<dots> \<longleftrightarrow> (\<exists>i. i \<in> set (sensorIds s) \<and> unmasked t s i \<and> isDue t s i)"
    unfolding PostUpdate_scan_def scan_active
    by (simp add: unmasked_def isDue_def)
  also have "\<dots> \<longleftrightarrow> someSensorDue t s"
    by (auto simp: someSensorDue_def list_ex_iff)
  finally show ?thesis .
qed

lemma RunOnce_empty:
  "running s \<Longrightarrow> updateAvailable s \<Longrightarrow> activeSensors s = [] \<Longrightarrow>
   RunOnce ext s = Done (complete (emit RenderUtil_Update s))"
  by (simp add: RunOnce_def Let_def emit_def)

lemma RunOnce_pass:
  "running s \<Longrightarrow> updateAvailable s \<Longrightarrow> activeSensors s \<noteq> [] \<Longrightarrow> scene s = Some sc \<Longrightarrow>
   RunOnce ext s =
     Done (complete
       ((emit (Manager_RunOnce (updateTime s))
          ((emit Scene_PreRender (maskActive (activeSensors s) (emit RenderUtil_Update s)))
             \<lparr>sensorManager := manager_RunOnce ext (updateTime s) (sensorManager s)\<rparr>))
          \<lparr>activeSensors := []\<rparr>))"
  by (simp add: RunOnce_def Let_def emit_def maskActive_frame)

lemma RunOnce_mask:
  "running s \<Longrightarrow> updateAvailable s \<Longrightarrow> activeSensors s \<noteq> [] \<Longrightarrow>
   sensorMask (state_of (RunOnce ext s)) =
     sensorMask (maskActive (activeSensors s) (emit RenderUtil_Update s))"
  by (simp add: RunOnce_def Let_def emit_def complete_def maskActive_frame
      split: option.splits)

lemma rendered_fields:
  "sensorMask rendered 1 = Some (9 / 100)" "sensorMask rendered (Suc 0) = Some (9 / 100)"
  "sensorIds rendered = [1]"
  "sensorManager rendered = [camA]"
  by (simp_all add: rendered_def RunOnce_def Let_def emit_def complete_def requested_def
      ready_def constructed_def camA_def example_ext_def)

lemma PostUpdate_not_ready:
  "\<not> (running s \<and> initialized s) \<Longrightarrow>
   PostUpdate t h p s = NoGate (PostUpdate_doInit h s)"
  by (cases "running s"; cases "initialized s")
    (simp_all add: PostUpdate_def PostUpdate_doInit_def Let_def emit_def)

lemma PostUpdate_ready:
  "running s \<Longrightarrow> initialized s \<Longrightarrow>
   PostUpdate t h p s =
     (if fst (PostUpdate_scan t s) \<noteq> [] \<or> 0 < p
      then Gate (PostUpdate_gate (fst (PostUpdate_scan t s)) t
                   ((emit RenderUtil_UpdateFromECM s)\<lparr>sensorMask := snd (PostUpdate_scan t s)\<rparr>))
      else NoGate ((emit RenderUtil_UpdateFromECM s)\<lparr>sensorMask := snd (PostUpdate_scan t s)\<rparr>))"
  by (simp add: PostUpdate_def PostUpdate_doInit_def Let_def emit_def PostUpdate_scan_def
      split: prod.splits)

lemma PostUpdate_doInit_frame:
  "activeSensors (PostUpdate_doInit h s) = activeSensors s
   \<and> updateTime (PostUpdate_doInit h s) = updateTime s
   \<and> updateAvailable (PostUpdate_doInit h s) = updateAvailable s"
  by (simp add: PostUpdate_doInit_def emit_def)

lemma PostUpdate_Done_request:
  assumes "PostUpdate t h p s = Gate (Done s')"
  shows "\<not> updateAvailable s \<and> updateAvailable s'
    \<and> activeSensors s' = fst (PostUpdate_scan t s) \<and> updateTime s' = t"
proof (cases "running s \<and> initialized s")
  case False
  from assms show ?thesis unfolding PostUpdate_not_ready [OF False] by simp
next
  case True
  then have r: "running s" "initialized s" by simp_all
  from assms show ?thesis
    unfolding PostUpdate_ready [OF r]
    by (auto simp: PostUpdate_gate_def emit_def split: if_splits)
qed

lemma RunOnce_Done_running:
  "RunOnce ext s = Done s1 \<Longrightarrow> running s1 \<and> \<not> updateAvailable s1"
  by (auto simp: RunOnce_def Let_def emit_def complete_def maskActive_frame
      split: if_splits option.splits)

lemma PostUpdate_pending_kept:
  "updateAvailable s \<Longrightarrow>
   activeSensors (post_state (PostUpdate t h p s)) = activeSensors s
   \<and> updateTime (post_state (PostUpdate t h p s)) = updateTime s
   \<and> updateAvailable (post_state (PostUpdate t h p s))"
proof (cases "running s \<and> initialized s")
  case False
  assume "updateAvailable s"
  then show ?thesis
    unfolding PostUpdate_not_ready [OF False] by (simp add: PostUpdate_doInit_frame)
next
  case True
  then have r: "running s" "initialized s" by simp_all
  assume "updateAvailable s"
  then show ?thesis
    unfolding PostUpdate_ready [OF r] using r
    by (simp add: PostUpdate_gate_def emit_def)
qed

lemma passes_emit:
  "passes (emit e s) = (if e = RenderUtil_Update then Suc (passes s) else passes s)"
  by (simp add: passes_def emit_def)

lemma passes_upd:
  "passes (s\<lparr>renderThread := x\<rparr>) = passes s"
  "passes (s\<lparr>updateAvailable := y\<rparr>) = passes s"
  "passes (s\<lparr>scene := z\<rparr>) = passes s"
  "passes (s\<lparr>initialized := w\<rparr>) = passes s"
  "passes (s\<lparr>running := v\<rparr>) = passes s"
  by (simp_all add: passes_def)

lemma RunOnce_stopped: "\<not> running u \<Longrightarrow> RunOnce ext u = Shutdown u"
  by (simp add: RunOnce_def)

lemma WaitForInit_stopped:
  "\<not> running u \<Longrightarrow>
   \<exists>u'. WaitForInit_body ext u = Done u' \<and> \<not> running u' \<and> passes u' = passes u
        \<and> renderThread u' = renderThread u"
  by (simp add: WaitForInit_body_def Let_def emit_def passes_def)

lemma step_stopped:
  assumes "\<not> running u"
  shows "renderThread u = Some InitWait \<Longrightarrow>
           \<exists>u'. RenderThread_step ext u = Some u' \<and> renderThread u' = Some InitCheck
              \<and> \<not> running u' \<and> passes u' = passes u"
    and "renderThread u = Some InitCheck \<Longrightarrow>
           \<exists>u'. RenderThread_step ext u = Some u' \<and> renderThread u' = Some LoopCheck
              \<and> \<not> running u' \<and> passes u' = passes u"
    and "renderThread u = Some RunOnceWait \<Longrightarrow>
           \<exists>u'. RenderThread_step ext u = Some u' \<and> renderThread u' = Some LoopCheck
              \<and> \<not> running u' \<and> passes u' = passes u"
    and "renderThread u = Some LoopCheck \<Longrightarrow>
           \<exists>u'. RenderThread_step ext u = Some u' \<and> renderThread u' = Some Exited
              \<and> \<not> running u' \<and> passes u' = passes u"
    and "renderThread u = Some Exited \<Longrightarrow> RenderThread_step ext u = None"
proof -
  show "renderThread u = Some InitWait \<Longrightarrow>
           \<exists>u'. RenderThread_step ext u = Some u' \<and> renderThread u' = Some InitCheck
              \<and> \<not> running u' \<and> passes u' = passes u"
    using WaitForInit_stopped [OF assms, of ext]
    by (auto simp: RenderThread_step_def passes_upd)
  show "renderThread u = Some InitCheck \<Longrightarrow>
           \<exists>u'. RenderThread_step ext u = Some u' \<and> renderThread u' = Some LoopCheck
              \<and> \<not> running u' \<and> passes u' = passes u"
    using assms by (simp add: RenderThread_step_def passes_upd)
  show "renderThread u = Some RunOnceWait \<Longrightarrow>
           \<exists>u'. RenderThread_step ext u = Some u' \<and> renderThread u' = Some LoopCheck
              \<and> \<not> running u' \<and> passes u' = passes u"
    using assms by (simp add: RenderThread_step_def RunOnce_stopped passes_upd)
  show "renderThread u = Some LoopCheck \<Longrightarrow>
           \<exists>u'. RenderThread_step ext u = Some u' \<and> renderThread u' = Some Exited
              \<and> \<not> running u' \<and> passes u' = passes u"
    using assms by (simp add: RenderThread_step_def passes_upd)
  show "renderThread u = Some Exited \<Longrightarrow> RenderThread_step ext u = None"
    by (simp add: RenderThread_step_def)
qed

lemma steps_Exited:
  "renderThread u = Some Exited \<Longrightarrow> RenderThread_steps n ext u = u"
  by (cases n) (simp_all add: RenderThread_step_def)

lemma steps_from_LoopCheck:
  assumes "\<not> running u" and "renderThread u = Some LoopCheck"
  shows "renderThread (RenderThread_steps (Suc n) ext u) = Some Exited
    \<and> passes (RenderThread_steps (Suc n) ext u) = passes u
    \<and> \<not> running (RenderThread_steps (Suc n) ext u)"
proof -
  from step_stopped(4) [OF assms, of ext] obtain u' where
    u': "RenderThread_step ext u = Some u'" "renderThread u' = Some Exited"
        "\<not> running u'" "passes u' = passes u"
    by blast
  then show ?thesis by (simp add: steps_Exited)
qed

lemma steps_from_InitCheck:
  assumes "\<not> running u" and "renderThread u = Some InitCheck"
  shows "renderThread (RenderThread_steps (Suc (Suc n)) ext u) = Some Exited
    \<and> passes (RenderThread_steps (Suc (Suc n)) ext u) = passes u
    \<and> \<not> running (RenderThread_steps (Suc (Suc n)) ext u)"
proof -
  from step_stopped(2) [OF assms, of ext] obtain u' where
    u': "RenderThread_step ext u = Some u'" "renderThread u' = Some LoopCheck"
        "\<not> running u'" "passes u' = passes u"
    by blast
  from steps_from_LoopCheck [OF u'(3,2), of n ext] u'(1,4) show ?thesis by simp
qed

lemma steps_from_RunOnceWait:
  assumes "\<not> running u" and "renderThread u = Some RunOnceWait"
  shows "renderThread (RenderThread_steps (Suc (Suc n)) ext u) = Some Exited
    \<and> passes (RenderThread_steps (Suc (Suc n)) ext u) = passes u
    \<and> \<not> running (RenderThread_steps (Suc (Suc n)) ext u)"
proof -
  from step_stopped(3) [OF assms, of ext] obtain u' where
    u': "RenderThread_step ext u = Some u'" "renderThread u' = Some LoopCheck"
        "\<not> running u'" "passes u' = passes u"
    by blast
  from steps_from_LoopCheck [OF u'(3,2), of n ext] u'(1,4) show ?thesis by simp
qed

lemma steps_from_InitWait:
  assumes "\<not> running u" and "renderThread u = Some InitWait"
  shows "renderThread (RenderThread_steps (Suc (Suc (Suc n))) ext u) = Some Exited
    \<and> passes (RenderThread_steps (Suc (Suc (Suc n))) ext u) = passes u
    \<and> \<not> running (RenderThread_steps (Suc (Suc (Suc n))) ext u)"
proof -
  from step_stopped(1) [OF assms, of ext] obtain u' where
    u': "RenderThread_step ext u = Some u'" "renderThread u' = Some InitCheck"
        "\<not> running u'" "passes u' = passes u"
    by blast
  from steps_from_InitCheck [OF u'(3,2), of n ext] u'(1,4) show ?thesis by simp
qed

lemma worker_exits:
  assumes "\<not> running u" and "renderThread u = Some pc" and "pc \<noteq> Crashed"
  shows "renderThread (RenderThread_steps 3 ext u) = Some Exited
    \<and> passes (RenderThread_steps 3 ext u) = passes u
    \<and> \<not> running (RenderThread_steps 3 ext u)"
proof -
  have 3: "(3::nat) = Suc (Suc (Suc 0))" by simp
  show ?thesis
  proof (cases pc)
    case InitCheck
    with assms steps_from_InitCheck [of u 1 ext] show ?thesis by (simp add: 3)
  next
    case InitWait
    with assms steps_from_InitWait [of u 0 ext] show ?thesis by (simp add: 3)
  next
    case LoopCheck
    with assms steps_from_LoopCheck [of u 2 ext] show ?thesis by (simp add: 3)
  next
    case RunOnceWait
    with assms steps_from_RunOnceWait [of u 1 ext] show ?thesis by (simp add: 3)
  next
    case Exited
    with assms show ?thesis by (simp add: steps_Exited)
  next
    case Crashed
    with assms show ?thesis by simp
  qed
qed

lemma steps_stuck:
  "RenderThread_step ext u = None \<Longrightarrow> RenderThread_steps n ext u = u"
  by (cases n) simp_all

lemma steps_add:
  "RenderThread_steps (m + n) ext u = RenderThread_steps n ext (RenderThread_steps m ext u)"
proof (induction m arbitrary: u)
  case 0
  then show ?case by simp
next
  case (Suc m)
  show ?case
  proof (cases "RenderThread_step ext u")
    case None
    then show ?thesis by (simp add: steps_stuck)
  next
    case (Some u')
    then show ?thesis using Suc.IH [of u'] by simp
  qed
qed

lemma steps_after_exit:
  assumes "renderThread (RenderThread_steps 3 ext u) = Some Exited" and "3 \<le> k"
  shows "RenderThread_steps k ext u = RenderThread_steps 3 ext u"
proof -
  from assms(2) obtain j where k: "k = 3 + j" by (auto simp: le_iff_add)
  show ?thesis
    unfolding k steps_add using steps_Exited [OF assms(1)] by simp
qed

lemma worker_exits_fuel:
  assumes "\<not> running u" and "renderThread u = Some pc" and "pc \<noteq> Crashed" and "3 \<le> k"
  shows "renderThread (RenderThread_steps k ext u) = Some Exited
    \<and> passes (RenderThread_steps k ext u) = passes u
    \<and> \<not> running (RenderThread_steps k ext u)"
proof -
  note w = worker_exits [OF assms(1-3), of ext]
  from w have "renderThread (RenderThread_steps 3 ext u) = Some Exited" by simp
  from steps_after_exit [OF this assms(4)] w show ?thesis by simp
qed

text \<open>The requests \<^verbatim>\<open>PostUpdate\<close> hands over never hold two sensors with one id, as long
  as \<open>sensorIds\<close> has no duplicates, which \<^verbatim>\<open>CreateSensor\<close> preserves.\<close>

lemma pushIfDue_distinct:
  assumes "distinct (map Id_of a)" and "j \<notin> Id_of ` set a"
  shows "distinct (map Id_of (pushIfDue t (asRendering (Manager_Sensor m j)) a))
    \<and> Id_of ` set (pushIfDue t (asRendering (Manager_Sensor m j)) a) \<subseteq> insert j (Id_of ` set a)"
proof (cases "asRendering (Manager_Sensor m j)")
  case None
  with assms show ?thesis by (auto simp: pushIfDue_def)
next
  case (Some x)
  then have "Id_of x = j" by (rule asRendering_Id)
  with Some assms show ?thesis by (auto simp: pushIfDue_def)
qed

lemma scan_distinct:
  "distinct ids \<Longrightarrow> distinct (map Id_of a) \<Longrightarrow> Id_of ` set a \<inter> set ids = {} \<Longrightarrow>
   distinct (map Id_of (fst (scanSensors t m ids (a, k))))"
proof (induction ids arbitrary: a k)
  case Nil
  then show ?case by simp
next
  case (Cons j ids)
  let ?a = "pushIfDue t (asRendering (Manager_Sensor m j)) a"
  from Cons.prems have j: "j \<notin> Id_of ` set a" "j \<notin> set ids" "distinct ids"
    "Id_of ` set a \<inter> set ids = {}"
    by auto
  from pushIfDue_distinct [OF Cons.prems(2) j(1), of t m]
  have d: "distinct (map Id_of ?a)" and sub: "Id_of ` set ?a \<subseteq> insert j (Id_of ` set a)"
    by simp_all
  from sub j have disj: "Id_of ` set ?a \<inter> set ids = {}" by blast
  have 1: "distinct (map Id_of (fst (scanSensors t m ids (?a, k'))))" for k'
    using Cons.IH [OF j(3) d disj] .
  have 2: "distinct (map Id_of (fst (scanSensors t m ids (a, k))))"
    using Cons.IH [OF j(3) Cons.prems(2) j(4)] .
  show ?case
    using 1 2 by (simp add: Let_def split: option.splits)
qed

lemma published_distinct:
  assumes "distinct (sensorIds s)" and "PostUpdate t h p s = Gate (Done s')"
  shows "distinct (map Id_of (activeSensors s'))"
proof -
  from PostUpdate_Done_request [OF assms(2)]
  have "activeSensors s' = fst (PostUpdate_scan t s)" by simp
  then show ?thesis
    using scan_distinct [OF assms(1), of "[]" t "sensorManager s" "sensorMask s"]
    by (simp add: PostUpdate_scan_def)
qed

lemma CreateSensor_distinct:
  "distinct (sensorIds s) \<Longrightarrow> distinct (sensorIds (create_state (CreateSensor ext sdf p s)))"
  by (auto simp: CreateSensor_def Let_def emit_def distinct_insort_insert
      split: prod.splits option.splits)

text \<open>\<^verbatim>\<open>PostUpdate\<close> and its hand-over block, case by case; what a scan does with one id.\<close>

lemma scanned_fields:
  "running (scanned t s) = running s" "updateAvailable (scanned t s) = updateAvailable s"
  "activeSensors (scanned t s) = activeSensors s" "updateTime (scanned t s) = updateTime s"
  "sensorMask (scanned t s) = snd (PostUpdate_scan t s)"
  "trace (scanned t s) = trace s @ [RenderUtil_UpdateFromECM]"
  "initialized (scanned t s) = initialized s" "doInit (scanned t s) = doInit s"
  by (simp_all add: scanned_def emit_def)

lemma PostUpdate_ready_scanned:
  "running s \<Longrightarrow> initialized s \<Longrightarrow>
   PostUpdate t h p s =
     (if someSensorDue t s \<or> 0 < p
      then Gate (PostUpdate_gate (fst (PostUpdate_scan t s)) t (scanned t s))
      else NoGate (scanned t s))"
  by (simp add: PostUpdate_ready scan_nonempty scanned_def)

lemma PostUpdate_gate_cases:
  "PostUpdate_gate a t v =
     (if running v \<and> updateAvailable v then Blocked v
      else if \<not> running v then Shutdown v
      else Done (emit Notify_one (v\<lparr>activeSensors := a, updateTime := t, updateAvailable := True\<rparr>)))"
  by (simp add: PostUpdate_gate_def)

lemma PostUpdate_mask:
  "sensorMask (post_state (PostUpdate t h p s)) =
     (if running s \<and> initialized s then snd (PostUpdate_scan t s) else sensorMask s)"
proof (cases "running s \<and> initialized s")
  case False
  have "sensorMask (PostUpdate_doInit h s) = sensorMask s"
    by (simp add: PostUpdate_doInit_def emit_def)
  then show ?thesis
    unfolding PostUpdate_not_ready [OF False] using False by auto
next
  case True
  then have r: "running s" "initialized s" by simp_all
  show ?thesis
    unfolding PostUpdate_ready_scanned [OF r] using r
    by (simp add: PostUpdate_gate_cases scanned_fields emit_def)
qed

lemma masked_not_scanned:
  assumes "sensorMask u i = Some D" and "T' < D"
  shows "list_all (\<lambda>y. Id_of y \<noteq> i) (fst (PostUpdate_scan T' u))"
    and "snd (PostUpdate_scan T' u) i = Some D"
proof -
  have "\<not> (\<exists>y\<in>set (fst (PostUpdate_scan T' u)). Id_of y = i)"
    unfolding PostUpdate_scan_def scan_active using assms by simp
  then show "list_all (\<lambda>y. Id_of y \<noteq> i) (fst (PostUpdate_scan T' u))"
    by (simp add: list_all_iff)
  show "snd (PostUpdate_scan T' u) i = Some D"
    unfolding PostUpdate_scan_def scan_mask using assms by simp
qed

lemma lapsed_scanned:
  assumes "sensorMask u i = Some D" and "D \<le> T'" and "i \<in> set (sensorIds u)"
  shows "snd (PostUpdate_scan T' u) i = None"
    and "list_ex (\<lambda>y. Id_of y = i) (fst (PostUpdate_scan T' u)) \<longleftrightarrow> isDue T' u i"
proof -
  show "snd (PostUpdate_scan T' u) i = None"
    unfolding PostUpdate_scan_def scan_mask using assms by simp
  have "(\<exists>y\<in>set (fst (PostUpdate_scan T' u)). Id_of y = i) \<longleftrightarrow> isDue T' u i"
    unfolding PostUpdate_scan_def scan_active using assms by (simp add: isDue_def)
  then show "list_ex (\<lambda>y. Id_of y = i) (fst (PostUpdate_scan T' u)) \<longleftrightarrow> isDue T' u i"
    by (simp add: list_ex_iff)
qed

lemma unmasked_scanned:
  assumes "sensorMask u i = None" and "i \<in> set (sensorIds u)"
  shows "list_ex (\<lambda>y. Id_of y = i) (fst (PostUpdate_scan T' u)) \<longleftrightarrow> isDue T' u i"
proof -
  have "(\<exists>y\<in>set (fst (PostUpdate_scan T' u)). Id_of y = i) \<longleftrightarrow> isDue T' u i"
    unfolding PostUpdate_scan_def scan_active using assms by (simp add: isDue_def)
  then show ?thesis by (simp add: list_ex_iff)
qed

lemma due_someSensorDue:
  "i \<in> set (sensorIds u) \<Longrightarrow> unmasked T' u i \<Longrightarrow> isDue T' u i \<Longrightarrow> someSensorDue T' u"
  by (auto simp: someSensorDue_def list_ex_iff)

lemma PostUpdate_publishes:
  assumes "running u" and "initialized u" and "\<not> updateAvailable u"
    and "someSensorDue T' u \<or> 0 < p"
  shows "\<exists>s'. PostUpdate T' h p u = Gate (Done s')
           \<and> activeSensors s' = fst (PostUpdate_scan T' u) \<and> updateTime s' = T'
           \<and> updateAvailable s' \<and> sensorMask s' = snd (PostUpdate_scan T' u)
           \<and> trace s' = trace u @ [RenderUtil_UpdateFromECM, Notify_one]"
  unfolding PostUpdate_ready_scanned [OF assms(1,2)] using assms
  by (simp add: PostUpdate_gate_cases scanned_fields emit_def)

lemma rendered_flags:
  "running rendered" "initialized rendered" "\<not> updateAvailable rendered"
  "activeSensors rendered = []"
  by (simp_all add: rendered_def RunOnce_def Let_def emit_def complete_def requested_def
      ready_def constructed_def camA_def example_ext_def)

lemma requested_scan:
  "fst (PostUpdate_scan (5 / 100) requested) = [camA]"
  "snd (PostUpdate_scan (5 / 100) requested) = Map.empty"
  by (simp_all add: PostUpdate_scan_def requested_def ready_def constructed_def Let_def
      asRendering_def Manager_Sensor_def pushIfDue_def camA_def)

section \<open>The properties\<close>

text \<open>
  C1. Single flight. While the system runs and a request is pending (\<open>updateAvailable\<close>),
  the hand-over block of \<^verbatim>\<open>PostUpdate\<close> stays in its wait; whatever the outcome, neither
  that block nor \<^verbatim>\<open>PostUpdate\<close> as a whole changes the sensor set or the time of a pending
  request; the block writes a request only into a free slot; and once a render pass
  has returned, the slot is free and the hand-over goes through.
\<close>

theorem single_flight:
  "(running s \<and> updateAvailable s \<longrightarrow> PostUpdate_gate a t s = Blocked s)
   \<and> (updateAvailable s \<longrightarrow>
         activeSensors (state_of (PostUpdate_gate a t s)) = activeSensors s
         \<and> updateTime (state_of (PostUpdate_gate a t s)) = updateTime s)
   \<and> (updateAvailable s \<longrightarrow>
         activeSensors (post_state (PostUpdate t h p s)) = activeSensors s
         \<and> updateTime (post_state (PostUpdate t h p s)) = updateTime s
         \<and> updateAvailable (post_state (PostUpdate t h p s)))
   \<and> (\<forall>s'. PostUpdate_gate a t s = Done s' \<longrightarrow>
         \<not> updateAvailable s \<and> updateAvailable s'
         \<and> activeSensors s' = a \<and> updateTime s' = t)
   \<and> (\<forall>s1. RunOnce ext s = Done s1 \<longrightarrow>
         \<not> updateAvailable s1
         \<and> (\<exists>s2. PostUpdate_gate a t s1 = Done s2
                \<and> activeSensors s2 = a \<and> updateTime s2 = t))"
proof (intro conjI impI allI)
  show "PostUpdate_gate a t s = Blocked s" if "running s \<and> updateAvailable s"
    using that by (simp add: PostUpdate_gate_def)
  show "activeSensors (state_of (PostUpdate_gate a t s)) = activeSensors s"
    and "updateTime (state_of (PostUpdate_gate a t s)) = updateTime s"
    if "updateAvailable s"
    using that by (simp_all add: PostUpdate_gate_def)
  show "activeSensors (post_state (PostUpdate t h p s)) = activeSensors s"
    and "updateTime (post_state (PostUpdate t h p s)) = updateTime s"
    and "updateAvailable (post_state (PostUpdate t h p s))"
    if "updateAvailable s"
    using PostUpdate_pending_kept [OF that] by simp_all
  show "\<not> updateAvailable s" and "updateAvailable s'" and "activeSensors s' = a"
    and "updateTime s' = t"
    if "PostUpdate_gate a t s = Done s'" for s'
    using that by (auto simp: PostUpdate_gate_def emit_def split: if_splits)
  show "\<not> updateAvailable s1"
    and "\<exists>s2. PostUpdate_gate a t s1 = Done s2 \<and> activeSensors s2 = a \<and> updateTime s2 = t"
    if "RunOnce ext s = Done s1" for s1
    using RunOnce_Done_running [OF that] by (simp_all add: PostUpdate_gate_def emit_def)
qed

theorem single_flight_witness:
  "running requested \<and> updateAvailable requested
   \<and> PostUpdate_gate [] 1 requested = Blocked requested
   \<and> activeSensors (post_state (PostUpdate 1 False 1 requested)) = [camA]
   \<and> updateTime (post_state (PostUpdate 1 False 1 requested)) = 0
   \<and> PostUpdate_gate [camA] 0 ready = Done (emit Notify_one requested)
   \<and> \<not> updateAvailable ready
   \<and> RunOnce example_ext requested = Done rendered
   \<and> \<not> updateAvailable rendered
   \<and> (\<exists>s2. PostUpdate_gate [] 1 rendered = Done s2
          \<and> activeSensors s2 = [] \<and> updateTime s2 = 1)"
proof -
  have r: "running requested" "updateAvailable requested"
    "activeSensors requested = [camA]" "updateTime requested = 0"
    by (simp_all add: requested_def ready_def constructed_def)
  have g: "PostUpdate_gate [camA] 0 ready = Done (emit Notify_one requested)"
    by (simp add: PostUpdate_gate_def requested_def ready_def constructed_def emit_def)
  have d: "RunOnce example_ext requested = Done rendered"
  proof -
    have "scene requested = Some 0" "activeSensors requested \<noteq> []"
      by (simp_all add: requested_def ready_def constructed_def)
    from RunOnce_pass [OF r(1,2) this(2,1), of example_ext] show ?thesis
      by (simp add: rendered_def)
  qed
  from single_flight [of requested "[]" 1 False 1 example_ext] r d
  have 1: "PostUpdate_gate [] 1 requested = Blocked requested
     \<and> activeSensors (post_state (PostUpdate 1 False 1 requested)) = [camA]
     \<and> updateTime (post_state (PostUpdate 1 False 1 requested)) = 0
     \<and> \<not> updateAvailable rendered
     \<and> (\<exists>s2. PostUpdate_gate [] 1 rendered = Done s2
          \<and> activeSensors s2 = [] \<and> updateTime s2 = 1)"
    by simp
  from single_flight [of ready "[camA]" 0 False 0 example_ext] g
  have 2: "\<not> updateAvailable ready" by simp
  from 1 2 r g d show ?thesis by simp
qed

text \<open>
  C2 (as amended). One render pass, once the request is claimed: \<^verbatim>\<open>renderUtil.Update()\<close>
  first; if the active set is empty nothing else happens before the completion (no
  pre-render, no mask write); otherwise the mask deadline of every active sensor is
  written first, then the scene is pre-rendered once, then \<^verbatim>\<open>sensorManager.RunOnce\<close> is
  called once with the request's time, and the active set is cleared. The pass ends by
  clearing \<open>updateAvailable\<close> and notifying one waiter. The non-empty case needs a
  non-null scene pointer.
\<close>

theorem RunOnce_order:
  assumes "running s" and "updateAvailable s"
  shows "(activeSensors s = [] \<longrightarrow>
            (\<exists>s'. RunOnce ext s = Done s'
               \<and> trace s' = trace s @ [RenderUtil_Update, Notify_one]
               \<and> \<not> updateAvailable s' \<and> sensorMask s' = sensorMask s))
       \<and> (activeSensors s \<noteq> [] \<longrightarrow> scene s \<noteq> None \<longrightarrow>
            (\<exists>s'. RunOnce ext s = Done s'
               \<and> trace s' = trace s @ [RenderUtil_Update]
                    @ deadlines (updateTime s) (activeSensors s)
                    @ [Scene_PreRender, Manager_RunOnce (updateTime s), Notify_one]
               \<and> \<not> updateAvailable s' \<and> activeSensors s' = []))"
proof (intro conjI impI)
  assume "activeSensors s = []"
  then show "\<exists>s'. RunOnce ext s = Done s'
               \<and> trace s' = trace s @ [RenderUtil_Update, Notify_one]
               \<and> \<not> updateAvailable s' \<and> sensorMask s' = sensorMask s"
    using assms by (simp add: RunOnce_empty complete_def emit_def)
next
  assume ne: "activeSensors s \<noteq> []" and "scene s \<noteq> None"
  then obtain sc where sc: "scene s = Some sc" by auto
  show "\<exists>s'. RunOnce ext s = Done s'
               \<and> trace s' = trace s @ [RenderUtil_Update]
                    @ deadlines (updateTime s) (activeSensors s)
                    @ [Scene_PreRender, Manager_RunOnce (updateTime s), Notify_one]
               \<and> \<not> updateAvailable s' \<and> activeSensors s' = []"
    unfolding RunOnce_pass [OF assms ne sc]
    by (simp add: complete_def emit_def maskActive_trace)
qed

text \<open>The claim as first stated fails: with the camera active, its mask is written before
  the pre-render and the publish, not after; with an empty active set no pre-render happens.\<close>

theorem RunOnce_order_counterexample:
  "trace (state_of (RunOnce example_ext requested)) =
     [RenderUtil_Update, Mask_Set 1 (9 / 100), Scene_PreRender, Manager_RunOnce 0, Notify_one]
   \<and> trace (state_of (RunOnce example_ext (requested\<lparr>activeSensors := []\<rparr>))) =
       [RenderUtil_Update, Notify_one]"
  by (simp add: RunOnce_def Let_def emit_def complete_def requested_def ready_def
      constructed_def camA_def example_ext_def)

theorem RunOnce_order_witness:
  "running requested \<and> updateAvailable requested
   \<and> (\<exists>s'. RunOnce example_ext requested = Done s'
         \<and> trace s' =
             [RenderUtil_Update, Mask_Set 1 (9 / 100), Scene_PreRender, Manager_RunOnce 0,
              Notify_one]
         \<and> \<not> updateAvailable s' \<and> activeSensors s' = [])
   \<and> (\<exists>s'. RunOnce example_ext (requested\<lparr>activeSensors := []\<rparr>) = Done s'
         \<and> trace s' = [RenderUtil_Update, Notify_one]
         \<and> \<not> updateAvailable s')"
proof -
  have r: "running requested" "updateAvailable requested"
    by (simp_all add: requested_def ready_def constructed_def)
  have r': "running (requested\<lparr>activeSensors := []\<rparr>)"
    "updateAvailable (requested\<lparr>activeSensors := []\<rparr>)"
    using r by simp_all
  have a: "activeSensors requested \<noteq> []" "scene requested \<noteq> None"
    "trace requested = []" "updateTime requested = 0"
    "deadlines 0 (activeSensors requested) = [Mask_Set 1 (9 / 100)]"
    by (simp_all add: requested_def ready_def constructed_def deadlines_def camA_def)
  from RunOnce_order [OF r, of example_ext] a
  have 1: "\<exists>s'. RunOnce example_ext requested = Done s'
         \<and> trace s' =
             [RenderUtil_Update, Mask_Set 1 (9 / 100), Scene_PreRender, Manager_RunOnce 0,
              Notify_one]
         \<and> \<not> updateAvailable s' \<and> activeSensors s' = []"
    by simp
  from RunOnce_order [OF r', of example_ext] a
  have 2: "\<exists>s'. RunOnce example_ext (requested\<lparr>activeSensors := []\<rparr>) = Done s'
         \<and> trace s' = [RenderUtil_Update, Notify_one]
         \<and> \<not> updateAvailable s'"
    by auto
  from r 1 2 show ?thesis by blast
qed

text \<open>
  C3 (as amended). Update-rate mask. A render pass at time \<open>updateTime s\<close> that includes
  sensor \<open>x\<close> (positive update rate \<open>r\<close>) sets the mask entry of \<open>x\<close> to
  \<open>updateTime s + 0.9 / r\<close>. In any state \<open>u\<close> that holds this entry, a \<^verbatim>\<open>PostUpdate\<close> at a
  time \<open>T'\<close> before the deadline keeps the entry, collects no sensor with this id and hands
  none over. A \<^verbatim>\<open>PostUpdate\<close> at or after the deadline, over a registry that holds the id,
  collects the sensor exactly when it is due (a rendering sensor whose next update time
  is at most \<open>T'\<close>); with the system running and initialised it erases the entry, and with
  the request slot free it hands the sensor over for \<open>T'\<close>. What \<^verbatim>\<open>PostUpdate\<close> brings to the
  hand-over block is the scanned set, also when it has to wait there. In a state with no
  entry for the id, as between the hand-over of a request and the mask write of its pass,
  the scan collects the sensor whenever it is due.
\<close>

theorem mask_semantics:
  assumes "running s" and "updateAvailable s"
    and "x \<in> set (activeSensors s)" and "distinct (map Id_of (activeSensors s))"
    and "0 < UpdateRate x"
  shows "sensorMask (state_of (RunOnce ext s)) (Id_of x) =
           Some (updateTime s + 0.9 / UpdateRate x)
    \<and> (sensorMask u (Id_of x) = Some (updateTime s + 0.9 / UpdateRate x) \<longrightarrow>
         T' < updateTime s + 0.9 / UpdateRate x \<longrightarrow>
           list_all (\<lambda>y. Id_of y \<noteq> Id_of x) (fst (PostUpdate_scan T' u))
           \<and> snd (PostUpdate_scan T' u) (Id_of x) = Some (updateTime s + 0.9 / UpdateRate x)
           \<and> sensorMask (post_state (PostUpdate T' h p u)) (Id_of x) =
               Some (updateTime s + 0.9 / UpdateRate x)
           \<and> (\<forall>s'. PostUpdate T' h p u = Gate (Done s') \<longrightarrow>
                 list_all (\<lambda>y. Id_of y \<noteq> Id_of x) (activeSensors s')))
    \<and> (sensorMask u (Id_of x) = Some (updateTime s + 0.9 / UpdateRate x) \<longrightarrow>
         updateTime s + 0.9 / UpdateRate x \<le> T' \<longrightarrow> Id_of x \<in> set (sensorIds u) \<longrightarrow>
           snd (PostUpdate_scan T' u) (Id_of x) = None
           \<and> (list_ex (\<lambda>y. Id_of y = Id_of x) (fst (PostUpdate_scan T' u))
                \<longleftrightarrow> isDue T' u (Id_of x))
           \<and> (running u \<and> initialized u \<longrightarrow>
                 sensorMask (post_state (PostUpdate T' h p u)) (Id_of x) = None)
           \<and> (running u \<and> initialized u \<and> \<not> updateAvailable u \<and> isDue T' u (Id_of x) \<longrightarrow>
                 (\<exists>s'. PostUpdate T' h p u = Gate (Done s')
                    \<and> list_ex (\<lambda>y. Id_of y = Id_of x) (activeSensors s')
                    \<and> updateTime s' = T' \<and> sensorMask s' (Id_of x) = None))
           \<and> (\<forall>s'. PostUpdate T' h p u = Gate (Done s') \<longrightarrow>
                 (list_ex (\<lambda>y. Id_of y = Id_of x) (activeSensors s')
                    \<longleftrightarrow> isDue T' u (Id_of x))))
    \<and> (\<forall>r. PostUpdate T' h p u = Gate r \<longrightarrow>
          r = PostUpdate_gate (fst (PostUpdate_scan T' u)) T' (scanned T' u))
    \<and> (sensorMask u (Id_of x) = None \<longrightarrow> Id_of x \<in> set (sensorIds u) \<longrightarrow>
          (list_ex (\<lambda>y. Id_of y = Id_of x) (fst (PostUpdate_scan T' u))
             \<longleftrightarrow> isDue T' u (Id_of x)))"
proof -
  let ?D = "updateTime s + 0.9 / UpdateRate x"
  let ?i = "Id_of x"
  from assms(3) have ne: "activeSensors s \<noteq> []" by auto
  have A: "sensorMask (state_of (RunOnce ext s)) ?i = Some ?D"
    unfolding RunOnce_mask [OF assms(1,2) ne]
    using maskActive_deadline [OF assms(4,3), of "emit RenderUtil_Update s"]
    by (simp add: emit_def)
  have done_set: "activeSensors s' = fst (PostUpdate_scan T' u)"
    if "PostUpdate T' h p u = Gate (Done s')" for s'
    using PostUpdate_Done_request [OF that] by simp
  have B: "list_all (\<lambda>y. Id_of y \<noteq> ?i) (fst (PostUpdate_scan T' u))
           \<and> snd (PostUpdate_scan T' u) ?i = Some ?D
           \<and> sensorMask (post_state (PostUpdate T' h p u)) ?i = Some ?D
           \<and> (\<forall>s'. PostUpdate T' h p u = Gate (Done s') \<longrightarrow>
                 list_all (\<lambda>y. Id_of y \<noteq> ?i) (activeSensors s'))"
    if m: "sensorMask u ?i = Some ?D" and lt: "T' < ?D"
  proof -
    note n = masked_not_scanned [OF m lt]
    have "sensorMask (post_state (PostUpdate T' h p u)) ?i = Some ?D"
      unfolding PostUpdate_mask using n(2) m by simp
    with n done_set show ?thesis by simp
  qed
  have C: "snd (PostUpdate_scan T' u) ?i = None
           \<and> (list_ex (\<lambda>y. Id_of y = ?i) (fst (PostUpdate_scan T' u)) \<longleftrightarrow> isDue T' u ?i)
           \<and> (running u \<and> initialized u \<longrightarrow>
                 sensorMask (post_state (PostUpdate T' h p u)) ?i = None)
           \<and> (running u \<and> initialized u \<and> \<not> updateAvailable u \<and> isDue T' u ?i \<longrightarrow>
                 (\<exists>s'. PostUpdate T' h p u = Gate (Done s')
                    \<and> list_ex (\<lambda>y. Id_of y = ?i) (activeSensors s')
                    \<and> updateTime s' = T' \<and> sensorMask s' ?i = None))
           \<and> (\<forall>s'. PostUpdate T' h p u = Gate (Done s') \<longrightarrow>
                 (list_ex (\<lambda>y. Id_of y = ?i) (activeSensors s') \<longleftrightarrow> isDue T' u ?i))"
    if m: "sensorMask u ?i = Some ?D" and ge: "?D \<le> T'" and reg: "?i \<in> set (sensorIds u)"
  proof -
    note l = lapsed_scanned [OF m ge reg]
    have 1: "sensorMask (post_state (PostUpdate T' h p u)) ?i = None"
      if "running u \<and> initialized u"
      unfolding PostUpdate_mask using l(1) that by simp
    have 2: "\<exists>s'. PostUpdate T' h p u = Gate (Done s')
                    \<and> list_ex (\<lambda>y. Id_of y = ?i) (activeSensors s')
                    \<and> updateTime s' = T' \<and> sensorMask s' ?i = None"
      if r: "running u \<and> initialized u \<and> \<not> updateAvailable u \<and> isDue T' u ?i"
    proof -
      have "unmasked T' u ?i" using m ge by (simp add: unmasked_def)
      with reg r have "someSensorDue T' u" by (auto intro: due_someSensorDue)
      with r PostUpdate_publishes [of u T' p h] obtain s' where
        "PostUpdate T' h p u = Gate (Done s')"
        "activeSensors s' = fst (PostUpdate_scan T' u)" "updateTime s' = T'"
        "sensorMask s' = snd (PostUpdate_scan T' u)"
        by blast
      with l r show ?thesis by simp
    qed
    have 3: "\<forall>s'. PostUpdate T' h p u = Gate (Done s') \<longrightarrow>
                 (list_ex (\<lambda>y. Id_of y = ?i) (activeSensors s') \<longleftrightarrow> isDue T' u ?i)"
      using done_set l(2) by simp
    from l 1 2 3 show ?thesis by blast
  qed
  have G: "\<forall>r. PostUpdate T' h p u = Gate r \<longrightarrow>
          r = PostUpdate_gate (fst (PostUpdate_scan T' u)) T' (scanned T' u)"
  proof (cases "running u \<and> initialized u")
    case False
    show ?thesis unfolding PostUpdate_not_ready [OF False] by simp
  next
    case True
    then have r: "running u" "initialized u" by simp_all
    show ?thesis unfolding PostUpdate_ready_scanned [OF r] by simp
  qed
  have E: "list_ex (\<lambda>y. Id_of y = ?i) (fst (PostUpdate_scan T' u)) \<longleftrightarrow> isDue T' u ?i"
    if "sensorMask u ?i = None" and "?i \<in> set (sensorIds u)"
    using unmasked_scanned [OF that] .
  from A B C G E show ?thesis by blast
qed

text \<open>The claim as first stated fails. The request for the 10 Hz camera at time 0 is handed
  over but not yet rendered; the step at 0.05 scans, finds no mask entry, collects the
  camera and waits at the gate; the pass for time 0 then sets the deadline 0.09; the wait
  ends and the camera is handed over for 0.05, inside the window.\<close>

theorem mask_semantics_counterexample:
  "camA \<in> set (activeSensors requested) \<and> updateTime requested = 0 \<and> UpdateRate camA = 10
   \<and> Id_of camA = 1
   \<and> (0 :: real) \<le> 5 / 100 \<and> (5 / 100 :: real) < 0 + 0.9 / 10
   \<and> fst (PostUpdate_scan (5 / 100) requested) = [camA]
   \<and> PostUpdate (5 / 100) False 0 requested = Gate (Blocked (scanned (5 / 100) requested))
   \<and> (\<exists>r q. RunOnce example_ext (scanned (5 / 100) requested) = Done r
          \<and> sensorMask r 1 = Some (9 / 100)
          \<and> PostUpdate_gate [camA] (5 / 100) r = Done q
          \<and> activeSensors q = [camA] \<and> updateTime q = 5 / 100
          \<and> sensorMask q 1 = Some (9 / 100))"
proof -
  let ?b = "scanned (5 / 100) requested"
  have f: "camA \<in> set (activeSensors requested)" "updateTime requested = 0"
    "UpdateRate camA = 10" "Id_of camA = 1" "running requested" "initialized requested"
    "updateAvailable requested"
    by (simp_all add: requested_def ready_def constructed_def camA_def)
  have due: "someSensorDue (5 / 100) requested"
    using scan_nonempty [of "5 / 100" requested] requested_scan by simp
  have blk: "PostUpdate (5 / 100) False 0 requested = Gate (Blocked ?b)"
    using PostUpdate_ready_scanned [OF f(5,6), of "5 / 100" False 0] due f requested_scan
    by (simp add: PostUpdate_gate_cases scanned_fields)
  have b: "running ?b" "updateAvailable ?b" "activeSensors ?b = [camA]" "scene ?b = Some 0"
    "updateTime ?b = 0"
    by (simp_all add: scanned_def emit_def requested_def ready_def constructed_def)
  let ?r = "state_of (RunOnce example_ext ?b)"
  have ne: "activeSensors ?b \<noteq> []" using b by simp
  have run: "RunOnce example_ext ?b = Done ?r"
    using RunOnce_pass [OF b(1,2) ne b(4), of example_ext] by simp
  have "sensorMask ?r = sensorMask (maskActive (activeSensors ?b) (emit RenderUtil_Update ?b))"
    by (rule RunOnce_mask [OF b(1,2) ne])
  then have mr: "sensorMask ?r 1 = Some (9 / 100)"
    using b by (simp add: emit_def camA_def)
  have rr: "running ?r" "\<not> updateAvailable ?r"
    using RunOnce_Done_running [OF run] by simp_all
  let ?q = "emit Notify_one (?r\<lparr>activeSensors := [camA], updateTime := 5 / 100,
              updateAvailable := True\<rparr>)"
  have gate: "PostUpdate_gate [camA] (5 / 100) ?r = Done ?q"
    using rr by (simp add: PostUpdate_gate_cases)
  have q: "activeSensors ?q = [camA]" "updateTime ?q = 5 / 100" "sensorMask ?q 1 = Some (9 / 100)"
    using mr by (simp_all add: emit_def)
  have w: "(0 :: real) \<le> 5 / 100" "(5 / 100 :: real) < 0 + 0.9 / 10" by simp_all
  from f requested_scan(1) blk run mr gate q w show ?thesis by blast
qed

text \<open>The scenario of the specification: a 10 Hz sensor rendered at 0 is masked until 0.09,
  skipped by the step at 0.05, collected and handed over again by the step at 0.095.\<close>

theorem mask_semantics_witness:
  "running requested \<and> updateAvailable requested \<and> camA \<in> set (activeSensors requested)
   \<and> distinct (map Id_of (activeSensors requested)) \<and> 0 < UpdateRate camA
   \<and> sensorMask rendered 1 = Some (9 / 100)
   \<and> 5 / 100 < (9 / 100 :: real)
   \<and> fst (PostUpdate_scan (5 / 100) rendered) = []
   \<and> snd (PostUpdate_scan (5 / 100) rendered) 1 = Some (9 / 100)
   \<and> sensorMask (post_state (PostUpdate (5 / 100) False 0 rendered)) 1 = Some (9 / 100)
   \<and> (9 / 100 :: real) \<le> 95 / 1000 \<and> 1 \<in> set (sensorIds rendered)
   \<and> running rendered \<and> initialized rendered \<and> \<not> updateAvailable rendered
   \<and> snd (PostUpdate_scan (95 / 1000) rendered) 1 = None
   \<and> list_ex (\<lambda>y. Id_of y = 1) (fst (PostUpdate_scan (95 / 1000) rendered))
   \<and> isDue (95 / 1000) rendered 1
   \<and> sensorMask (post_state (PostUpdate (95 / 1000) False 0 rendered)) 1 = None
   \<and> (\<exists>s'. PostUpdate (95 / 1000) False 0 rendered = Gate (Done s')
          \<and> list_ex (\<lambda>y. Id_of y = 1) (activeSensors s')
          \<and> updateTime s' = 95 / 1000 \<and> sensorMask s' 1 = None)
   \<and> sensorMask ready 1 = None \<and> 1 \<in> set (sensorIds ready)
   \<and> list_ex (\<lambda>y. Id_of y = 1) (fst (PostUpdate_scan (5 / 100) ready))
   \<and> isDue (5 / 100) ready 1"
proof -
  have h: "running requested" "updateAvailable requested"
    "camA \<in> set (activeSensors requested)" "distinct (map Id_of (activeSensors requested))"
    "0 < UpdateRate camA"
    by (simp_all add: requested_def ready_def constructed_def camA_def)
  have v: "Id_of camA = 1" "updateTime requested + 0.9 / UpdateRate camA = 9 / 100"
    by (simp_all add: requested_def ready_def constructed_def camA_def)
  have due: "isDue (95 / 1000) rendered 1"
    by (simp add: isDue_def rendered_fields asRendering_def Manager_Sensor_def camA_def)
  have e: "fst (PostUpdate_scan (5 / 100) rendered) = []"
    by (simp add: PostUpdate_scan_def rendered_fields Let_def)
  have rd: "sensorMask ready 1 = None" "1 \<in> set (sensorIds ready)" "isDue (5 / 100) ready 1"
    by (simp_all add: ready_def constructed_def isDue_def asRendering_def Manager_Sensor_def
        camA_def)
  have ineq: "5 / 100 < (9 / 100 :: real)" "(9 / 100 :: real) \<le> 95 / 1000" by simp_all
  note t = mask_semantics [OF h, of example_ext _ _ False 0, unfolded v, folded rendered_def]
  note a = t [of rendered "5 / 100"]
  note b = t [of rendered "95 / 1000"]
  note c = t [of ready "5 / 100"]
  from a rendered_fields(1) ineq(1)
  have 1: "snd (PostUpdate_scan (5 / 100) rendered) 1 = Some (9 / 100)"
    "sensorMask (post_state (PostUpdate (5 / 100) False 0 rendered)) 1 = Some (9 / 100)"
    by blast+
  from b rendered_fields(1) ineq(2) rendered_fields(3) rendered_flags due
  have 2: "snd (PostUpdate_scan (95 / 1000) rendered) 1 = None"
    "list_ex (\<lambda>y. Id_of y = 1) (fst (PostUpdate_scan (95 / 1000) rendered))"
    "sensorMask (post_state (PostUpdate (95 / 1000) False 0 rendered)) 1 = None"
    "\<exists>s'. PostUpdate (95 / 1000) False 0 rendered = Gate (Done s')
          \<and> list_ex (\<lambda>y. Id_of y = 1) (activeSensors s')
          \<and> updateTime s' = 95 / 1000 \<and> sensorMask s' 1 = None"
    by simp_all
  from c rd
  have 3: "list_ex (\<lambda>y. Id_of y = 1) (fst (PostUpdate_scan (5 / 100) ready))" by blast
  from h rendered_fields(1,3) rendered_flags(1-3) ineq e due rd 1 2 3
  show ?thesis by simp
qed




text \<open>
  C5. Shutdown. The locked part of \<^verbatim>\<open>Stop\<close> clears \<open>running\<close> and notifies all waiters.
  Right after it, the wait of the hand-over block of \<^verbatim>\<open>PostUpdate\<close> and the wait of
  \<^verbatim>\<open>RunOnce\<close> return the shutdown outcome without touching the state, and the render
  thread, wherever it stands, has returned after at most three steps of its own (and
  stays so for any number of further steps) without beginning a render pass, so that the
  join of \<^verbatim>\<open>Stop\<close> completes. The same holds in every later state \<open>u\<close> in which \<open>running\<close>
  is still clear; there the wait of \<^verbatim>\<open>WaitForInit\<close> is passable too.
\<close>

theorem Stop_wakes_all:
  "\<not> running (Stop_signal s)
   \<and> trace (Stop_signal s) = trace s @ [Notify_all]
   \<and> PostUpdate_gate a t (Stop_signal s) = Shutdown (Stop_signal s)
   \<and> RunOnce ext (Stop_signal s) = Shutdown (Stop_signal s)
   \<and> (renderThread s = Some pc \<longrightarrow> pc \<noteq> Crashed \<longrightarrow> 3 \<le> k \<longrightarrow>
         renderThread (stoppedAfter k ext s) = Some Exited
         \<and> passes (stoppedAfter k ext s) = passes s
         \<and> (\<exists>s'. Stop_join (stoppedAfter k ext s) = Done s' \<and> renderThread s' = None))
   \<and> (\<not> running u \<longrightarrow>
         PostUpdate_gate a t u = Shutdown u
         \<and> RunOnce ext u = Shutdown u
         \<and> (\<exists>u'. WaitForInit_body ext u = Done u' \<and> \<not> running u' \<and> passes u' = passes u))
   \<and> (\<not> running u \<longrightarrow> renderThread u = Some pc \<longrightarrow> pc \<noteq> Crashed \<longrightarrow> 3 \<le> k \<longrightarrow>
         renderThread (RenderThread_steps k ext u) = Some Exited
         \<and> passes (RenderThread_steps k ext u) = passes u
         \<and> \<not> running (RenderThread_steps k ext u))"
proof -
  have sig: "\<not> running (Stop_signal s)" "trace (Stop_signal s) = trace s @ [Notify_all]"
    "renderThread (Stop_signal s) = renderThread s" "passes (Stop_signal s) = passes s"
    by (simp_all add: Stop_signal_def emit_def passes_def)
  have gate: "PostUpdate_gate a t v = Shutdown v" if "\<not> running v" for v
    using that by (simp add: PostUpdate_gate_def)
  have claim: "RunOnce ext v = Shutdown v" if "\<not> running v" for v
    using that by (rule RunOnce_stopped)
  have init: "\<exists>u'. WaitForInit_body ext u = Done u' \<and> \<not> running u' \<and> passes u' = passes u"
    if "\<not> running u"
    using WaitForInit_stopped [OF that, of ext] by blast
  have exit: "renderThread (RenderThread_steps k ext v) = Some Exited
      \<and> passes (RenderThread_steps k ext v) = passes v
      \<and> \<not> running (RenderThread_steps k ext v)"
    if "\<not> running v" and "renderThread v = Some pc" and "pc \<noteq> Crashed" and "3 \<le> k" for v
    using worker_exits_fuel [OF that, of ext] .
  have stop: "renderThread (stoppedAfter k ext s) = Some Exited
      \<and> passes (stoppedAfter k ext s) = passes s
      \<and> (\<exists>s'. Stop_join (stoppedAfter k ext s) = Done s' \<and> renderThread s' = None)"
    if "renderThread s = Some pc" and "pc \<noteq> Crashed" and "3 \<le> k"
  proof -
    from that(1) sig(3) have "renderThread (Stop_signal s) = Some pc" by simp
    from exit [OF sig(1) this that(2,3)] sig(4)
    have e: "renderThread (stoppedAfter k ext s) = Some Exited"
      "passes (stoppedAfter k ext s) = passes s"
      by (simp_all add: stoppedAfter_def)
    from e(1) have "\<exists>s'. Stop_join (stoppedAfter k ext s) = Done s' \<and> renderThread s' = None"
      by (simp add: Stop_join_def emit_def)
    with e show ?thesis by simp
  qed
  from sig(1,2) gate [OF sig(1)] claim [OF sig(1)] stop gate [of u] claim [of u] init exit [of u]
  show ?thesis by blast
qed

theorem Stop_wakes_all_witness:
  "\<not> running (Stop_signal requested)
   \<and> trace (Stop_signal requested) = [Notify_all]
   \<and> PostUpdate_gate [camA] 1 (Stop_signal requested) = Shutdown (Stop_signal requested)
   \<and> RunOnce example_ext (Stop_signal requested) = Shutdown (Stop_signal requested)
   \<and> renderThread requested = Some RunOnceWait \<and> (3::nat) \<le> 4
   \<and> renderThread (stoppedAfter 4 example_ext requested) = Some Exited
   \<and> passes (stoppedAfter 4 example_ext requested) = 0
   \<and> (\<exists>s'. Stop_join (stoppedAfter 4 example_ext requested) = Done s' \<and> renderThread s' = None)
   \<and> \<not> running exited
   \<and> PostUpdate_gate [camA] 1 exited = Shutdown exited"
proof -
  have a: "trace requested = []" "renderThread requested = Some RunOnceWait"
    "passes requested = 0" "\<not> running exited"
    by (simp_all add: requested_def ready_def constructed_def passes_def exited_def)
  have b: "RunOnceWait \<noteq> Crashed" "(3::nat) \<le> 4" by simp_all
  from Stop_wakes_all [of requested "[camA]" 1 example_ext RunOnceWait 4 exited] a b
  show ?thesis by simp
qed

text \<open>
  C6 (as amended). \<^verbatim>\<open>Run\<close> has no check of \<open>running\<close>: it always sets the flag and
  constructs a new worker thread. It ends in \<^verbatim>\<open>std::terminate\<close> exactly when the previous
  thread object is still joinable; no error value is returned.
\<close>

theorem Run_unguarded:
  "((\<exists>s'. Run s = StdTerminate s') \<longleftrightarrow> renderThread s \<noteq> None)
   \<and> running (run_state (Run s))
   \<and> trace (run_state (Run s)) = trace s @ [Thread_Spawn]"
  by (auto simp: Run_def Let_def emit_def)

text \<open>A second \<^verbatim>\<open>Run\<close> on the running system spawns a second thread and terminates the
  process.\<close>

theorem Run_twice_counterexample:
  "running started \<and> Run constructed = Started started
   \<and> Run started = StdTerminate (emit Thread_Spawn started)"
  by (simp add: Run_def Let_def emit_def started_def constructed_def)

theorem Run_unguarded_witness:
  "(\<exists>s'. Run started = StdTerminate s') \<and> renderThread started \<noteq> None
   \<and> running (run_state (Run started))
   \<and> trace (run_state (Run started)) = [Thread_Spawn, Thread_Spawn]"
  using Run_unguarded [of started] by (simp add: started_def constructed_def)

text \<open>
  C7. \<^verbatim>\<open>CreateSensor\<close> on a descriptor of type \<open>NONE\<close> reports the error and returns the
  empty string with nothing created or registered; when the manager yields a rendering
  sensor for a descriptor of another type, the id is registered in \<open>sensorIds\<close>, the sensor
  gets scene, parent and manual scene update, and its name is returned.
\<close>

theorem CreateSensor_contract:
  "(sdf_Type sdf = NONE \<longrightarrow>
      CreateSensor ext sdf p s =
        Returned [] (emit (Err ''Unable to create sensor. SDF sensor type is NONE.'') s))
   \<and> (sdf_Type sdf \<noteq> NONE \<longrightarrow> manager_CreateSensor ext sdf (sensorManager s) = (i, m) \<longrightarrow>
        Manager_Sensor m i = Some x \<longrightarrow> isRenderingSensor x \<longrightarrow>
        (\<exists>s'. CreateSensor ext sdf p s = Returned (Name x) s'
            \<and> i \<in> set (sensorIds s')
            \<and> Manager_Sensor (sensorManager s') i =
                Some (x\<lparr>sensorScene := scene s, sensorParent := p, manualSceneUpdate := True\<rparr>)))"
  by (auto simp: CreateSensor_def Let_def emit_def asRendering_def set_insort_insert
      Manager_Sensor_modify Manager_Sensor_Id)

theorem CreateSensor_contract_witness:
  "CreateSensor example_ext \<lparr>sdf_Type = NONE, sdf_Name = ''n''\<rparr> ''model'' constructed =
     Returned [] (emit (Err ''Unable to create sensor. SDF sensor type is NONE.'') constructed)
   \<and> (\<exists>s'. CreateSensor example_ext \<lparr>sdf_Type = CAMERA, sdf_Name = ''cam''\<rparr> ''model'' constructed =
              Returned ''cam'' s'
          \<and> 1 \<in> set (sensorIds s')
          \<and> Manager_Sensor (sensorManager s') 1 =
              Some \<lparr>Id_of = 1, Name = ''cam'', UpdateRate = 10, NextUpdateTime = 0,
                    isRenderingSensor = True, sensorScene = None, sensorParent = ''model'',
                    manualSceneUpdate = True\<rparr>)"
proof -
  let ?x = "\<lparr>Id_of = 1, Name = ''cam'', UpdateRate = 10, NextUpdateTime = 0,
             isRenderingSensor = True, sensorScene = None, sensorParent = [],
             manualSceneUpdate = False\<rparr>"
  let ?cam = "\<lparr>sdf_Type = CAMERA, sdf_Name = ''cam''\<rparr>"
  have a: "sdf_Type \<lparr>sdf_Type = NONE, sdf_Name = ''n''\<rparr> = NONE" by simp
  have b: "sdf_Type ?cam \<noteq> NONE" by simp
  have c: "manager_CreateSensor example_ext ?cam (sensorManager constructed) = (1, [?x])"
    by (simp add: example_ext_def example_CreateSensor_def constructed_def)
  have d: "Manager_Sensor [?x] 1 = Some ?x" by (simp add: Manager_Sensor_def)
  have e: "isRenderingSensor ?x" by simp
  have f: "scene constructed = None" by (simp add: constructed_def)
  from CreateSensor_contract [of "\<lparr>sdf_Type = NONE, sdf_Name = ''n''\<rparr>" example_ext "''model''" constructed]
    a
  have 1: "CreateSensor example_ext \<lparr>sdf_Type = NONE, sdf_Name = ''n''\<rparr> ''model'' constructed =
     Returned [] (emit (Err ''Unable to create sensor. SDF sensor type is NONE.'') constructed)"
    by blast
  from CreateSensor_contract [of ?cam example_ext "''model''" constructed 1 "[?x]" ?x] b c d e
  have "\<exists>s'. CreateSensor example_ext ?cam ''model'' constructed = Returned (Name ?x) s'
          \<and> 1 \<in> set (sensorIds s')
          \<and> Manager_Sensor (sensorManager s') 1 =
              Some (?x\<lparr>sensorScene := scene constructed, sensorParent := ''model'',
                       manualSceneUpdate := True\<rparr>)"
    by blast
  with 1 f show ?thesis by simp
qed

text \<open>
  C8. No rendering sensor ever appears. From a state as \<^verbatim>\<open>Run\<close> leaves it (running, not
  initialised, \<open>doInit\<close> clear, thread at the start of \<^verbatim>\<open>WaitForInit\<close>) the render thread
  moves into the wait of \<^verbatim>\<open>WaitForInit\<close> and stays there, however many steps it is given;
  \<^verbatim>\<open>PostUpdate\<close> without rendering components changes nothing; nothing is initialised and
  nothing is rendered. A \<^verbatim>\<open>Stop\<close> then waits in its join, the thread returns within three
  steps without initialising or rendering, and the join completes; the same holds when
  the \<^verbatim>\<open>Stop\<close> comes before the thread has made its first step.
\<close>

theorem never_initialised:
  assumes "running s" and "\<not> doInit s" and "\<not> initialized s"
    and "renderThread s = Some InitCheck" and "3 \<le> k"
  shows "RenderThread_steps (Suc n) ext s = waitingForInit s
    \<and> RenderThread_step ext (waitingForInit s) = None
    \<and> \<not> initialized (waitingForInit s)
    \<and> trace (waitingForInit s) = trace s
    \<and> PostUpdate t False p s = NoGate s
    \<and> PostUpdate t False p (waitingForInit s) = NoGate (waitingForInit s)
    \<and> Stop (waitingForInit s) = Blocked (Stop_signal (waitingForInit s))
    \<and> renderThread (stoppedAfter k ext (waitingForInit s)) = Some Exited
    \<and> \<not> initialized (stoppedAfter k ext (waitingForInit s))
    \<and> trace (stoppedAfter k ext (waitingForInit s)) = trace s @ [Notify_all, Notify_one]
    \<and> Stop_join (stoppedAfter k ext (waitingForInit s)) =
         Done (emit Thread_Join ((stoppedAfter k ext (waitingForInit s))\<lparr>renderThread := None\<rparr>))
    \<and> renderThread (stoppedAfter k ext s) = Some Exited
    \<and> \<not> initialized (stoppedAfter k ext s)
    \<and> trace (stoppedAfter k ext s) = trace s @ [Notify_all]"
proof -
  let ?w = "waitingForInit s"
  have w: "running ?w" "\<not> doInit ?w" "\<not> initialized ?w" "renderThread ?w = Some InitWait"
    "trace ?w = trace s"
    using assms by (simp_all add: waitingForInit_def)
  have s1: "RenderThread_step ext s = Some ?w"
    using assms by (simp add: RenderThread_step_def waitingForInit_def)
  have s2: "RenderThread_step ext ?w = None"
    using w by (simp add: RenderThread_step_def WaitForInit_body_def)
  have steps: "RenderThread_steps (Suc n) ext s = ?w"
    using s1 s2 by (cases n) simp_all
  have post: "PostUpdate t False p ?w = NoGate ?w"
    using w by (simp add: PostUpdate_def PostUpdate_doInit_def Let_def)
  have post0: "PostUpdate t False p s = NoGate s"
    using assms by (simp add: PostUpdate_def PostUpdate_doInit_def Let_def)
  have 3: "(3::nat) = Suc (Suc (Suc 0))" by simp
  (* stop while the thread is in the wait *)
  let ?u = "Stop_signal ?w"
  have u: "\<not> running ?u" "\<not> doInit ?u" "\<not> initialized ?u" "renderThread ?u = Some InitWait"
    "trace ?u = trace s @ [Notify_all]"
    using w by (simp_all add: Stop_signal_def emit_def)
  have blocked: "Stop ?w = Blocked ?u"
    using u by (simp add: Stop_def Stop_join_def)
  let ?a = "(emit Notify_one (?u\<lparr>updateAvailable := False\<rparr>))\<lparr>renderThread := Some InitCheck\<rparr>"
  have a: "RenderThread_step ext ?u = Some ?a"
    using u by (simp add: RenderThread_step_def WaitForInit_body_def Let_def)
  have af: "\<not> running ?a" "\<not> initialized ?a" "renderThread ?a = Some InitCheck"
    "trace ?a = trace s @ [Notify_all, Notify_one]"
    using u by (simp_all add: emit_def)
  let ?b = "?a\<lparr>renderThread := Some LoopCheck\<rparr>"
  have b: "RenderThread_step ext ?a = Some ?b"
    using af by (simp add: RenderThread_step_def)
  let ?c = "?b\<lparr>renderThread := Some Exited\<rparr>"
  have c: "RenderThread_step ext ?b = Some ?c"
    using af by (simp add: RenderThread_step_def)
  have v3: "RenderThread_steps 3 ext ?u = ?c"
    unfolding 3 using a b c by simp
  have vf: "renderThread ?c = Some Exited" "\<not> initialized ?c"
    "trace ?c = trace s @ [Notify_all, Notify_one]"
    using af by simp_all
  have v: "stoppedAfter k ext ?w = ?c"
    unfolding stoppedAfter_def
    using steps_after_exit [OF _ assms(5), of ext ?u] vf(1) v3 by simp
  have j: "Stop_join ?c = Done (emit Thread_Join (?c\<lparr>renderThread := None\<rparr>))"
    by (simp add: Stop_join_def)
  (* stop before the thread has made a step *)
  let ?u0 = "Stop_signal s"
  have u0: "\<not> running ?u0" "\<not> initialized ?u0" "renderThread ?u0 = Some InitCheck"
    "trace ?u0 = trace s @ [Notify_all]"
    using assms by (simp_all add: Stop_signal_def emit_def)
  let ?b0 = "?u0\<lparr>renderThread := Some LoopCheck\<rparr>"
  have b0: "RenderThread_step ext ?u0 = Some ?b0"
    using u0 by (simp add: RenderThread_step_def)
  let ?c0 = "?b0\<lparr>renderThread := Some Exited\<rparr>"
  have c0: "RenderThread_step ext ?b0 = Some ?c0"
    using u0 by (simp add: RenderThread_step_def)
  have d0: "RenderThread_step ext ?c0 = None"
    by (simp add: RenderThread_step_def)
  have v03: "RenderThread_steps 3 ext ?u0 = ?c0"
    unfolding 3 using b0 c0 d0 by simp
  have vf0: "renderThread ?c0 = Some Exited" "\<not> initialized ?c0"
    "trace ?c0 = trace s @ [Notify_all]"
    using u0 by simp_all
  have v0: "stoppedAfter k ext s = ?c0"
    unfolding stoppedAfter_def
    using steps_after_exit [OF _ assms(5), of ext ?u0] vf0(1) v03 by simp
  show ?thesis
    unfolding v v0 using steps s2 w(3,5) post post0 blocked vf j vf0 by blast
qed

theorem never_initialised_witness:
  "Run constructed = Started started
   \<and> running started \<and> \<not> doInit started \<and> \<not> initialized started
   \<and> renderThread started = Some InitCheck \<and> (3::nat) \<le> 3
   \<and> RenderThread_steps 5 example_ext started = waitingForInit started
   \<and> RenderThread_step example_ext (waitingForInit started) = None
   \<and> PostUpdate 1 False 0 (waitingForInit started) = NoGate (waitingForInit started)
   \<and> renderThread (stoppedAfter 3 example_ext (waitingForInit started)) = Some Exited
   \<and> \<not> initialized (stoppedAfter 3 example_ext (waitingForInit started))
   \<and> trace (stoppedAfter 3 example_ext (waitingForInit started)) =
        [Thread_Spawn, Notify_all, Notify_one]
   \<and> trace (state_of (Stop_join (stoppedAfter 3 example_ext (waitingForInit started)))) =
        [Thread_Spawn, Notify_all, Notify_one, Thread_Join]"
proof -
  have r: "Run constructed = Started started"
    by (simp add: Run_def Let_def emit_def started_def constructed_def)
  have h: "running started" "\<not> doInit started" "\<not> initialized started"
    "renderThread started = Some InitCheck" "(3::nat) \<le> 3"
    by (simp_all add: started_def constructed_def)
  have t: "trace started = [Thread_Spawn]" by (simp add: started_def constructed_def)
  have 5: "(5::nat) = Suc 4" by simp
  from never_initialised [OF h, of 4 example_ext 1 0] r h t
  show ?thesis unfolding 5 by (simp add: emit_def)
qed

text \<open>
  C9. Once the join of a first \<^verbatim>\<open>Stop\<close> has returned, the thread object is not joinable,
  and a second \<^verbatim>\<open>Stop\<close> returns after clearing the flag and notifying, without a join.
\<close>

theorem Stop_twice:
  "Stop_join u = Done s1 \<Longrightarrow>
     renderThread s1 = None \<and> Stop s1 = Done (emit Notify_all (s1\<lparr>running := False\<rparr>))"
  by (auto simp: Stop_def Stop_join_def Stop_signal_def emit_def
      split: option.splits worker_pc.splits)

theorem Stop_twice_witness:
  "Stop_join exited = Done (emit Thread_Join (exited\<lparr>renderThread := None\<rparr>))
   \<and> Stop (emit Thread_Join (exited\<lparr>renderThread := None\<rparr>)) =
       Done (emit Notify_all
         ((emit Thread_Join (exited\<lparr>renderThread := None\<rparr>))\<lparr>running := False\<rparr>))
   \<and> trace (state_of (Stop (emit Thread_Join (exited\<lparr>renderThread := None\<rparr>)))) =
       [Thread_Spawn, Notify_all, Notify_one, Thread_Join, Notify_all]"
proof -
  have h: "Stop_join exited = Done (emit Thread_Join (exited\<lparr>renderThread := None\<rparr>))"
    by (simp add: Stop_join_def exited_def constructed_def)
  from Stop_twice [OF h] h show ?thesis
    by (simp add: emit_def exited_def constructed_def)
qed

text \<open>
  C10. For a descriptor whose type is not \<open>NONE\<close>, \<^verbatim>\<open>CreateSensor\<close> dereferences a null
  pointer exactly when the manager's sensor is missing or is not a rendering sensor; the
  id the manager returned is in \<open>sensorIds\<close> in every case; and when the sensor is missing
  the failure is logged and the dereference is reached all the same.
\<close>

theorem CreateSensor_unchecked_downcast:
  assumes "sdf_Type sdf \<noteq> NONE"
    and "manager_CreateSensor ext sdf (sensorManager s) = (i, m)"
  shows "((\<exists>s'. CreateSensor ext sdf p s = NullPointer s') \<longleftrightarrow>
            asRendering (Manager_Sensor m i) = None)
    \<and> i \<in> set (sensorIds (create_state (CreateSensor ext sdf p s)))
    \<and> (Manager_Sensor m i = None \<longrightarrow>
         CreateSensor ext sdf p s =
           NullPointer (emit (Err (''Failed to create sensor ['' @ sdf_Name sdf @ '']''))
             (s\<lparr>sensorManager := m, sensorIds := insort_insert i (sensorIds s)\<rparr>)))"
  using assms
  by (auto simp: CreateSensor_def Let_def emit_def asRendering_def set_insort_insert
      split: option.splits)

theorem CreateSensor_unchecked_downcast_witness:
  "CreateSensor example_ext \<lparr>sdf_Type = IMU, sdf_Name = ''imu''\<rparr> ''model'' constructed =
     NullPointer (emit (Err ''Failed to create sensor [imu]'')
       (constructed\<lparr>sensorManager := [], sensorIds := [0]\<rparr>))
   \<and> (\<exists>s'. CreateSensor example_ext \<lparr>sdf_Type = ALTIMETER, sdf_Name = ''alt''\<rparr> ''model'' constructed =
          NullPointer s')
   \<and> 1 \<in> set (sensorIds (create_state
        (CreateSensor example_ext \<lparr>sdf_Type = ALTIMETER, sdf_Name = ''alt''\<rparr> ''model'' constructed)))"
proof -
  let ?imu = "\<lparr>sdf_Type = IMU, sdf_Name = ''imu''\<rparr>"
  let ?alt = "\<lparr>sdf_Type = ALTIMETER, sdf_Name = ''alt''\<rparr>"
  let ?x = "\<lparr>Id_of = 1, Name = ''alt'', UpdateRate = 10, NextUpdateTime = 0,
             isRenderingSensor = False, sensorScene = None, sensorParent = [],
             manualSceneUpdate = False\<rparr>"
  have a: "sdf_Type ?imu \<noteq> NONE" by simp
  have b: "manager_CreateSensor example_ext ?imu (sensorManager constructed) = (0, [])"
    by (simp add: example_ext_def example_CreateSensor_def constructed_def NO_SENSOR_def)
  have c: "Manager_Sensor [] 0 = None" by (simp add: Manager_Sensor_def)
  have a': "sdf_Type ?alt \<noteq> NONE" by simp
  have b': "manager_CreateSensor example_ext ?alt (sensorManager constructed) = (1, [?x])"
    by (simp add: example_ext_def example_CreateSensor_def constructed_def)
  have c': "asRendering (Manager_Sensor [?x] 1) = None"
    by (simp add: Manager_Sensor_def asRendering_def)
  have i: "insort_insert (0::nat) (sensorIds constructed) = [0]"
    by (simp add: constructed_def insort_insert_key_def)
  from CreateSensor_unchecked_downcast [OF a b, of "''model''"] c i
  have 1: "CreateSensor example_ext ?imu ''model'' constructed =
     NullPointer (emit (Err ''Failed to create sensor [imu]'')
       (constructed\<lparr>sensorManager := [], sensorIds := [0]\<rparr>))"
    by simp
  from CreateSensor_unchecked_downcast [OF a' b', of "''model''"] c'
  have 2: "(\<exists>s'. CreateSensor example_ext ?alt ''model'' constructed = NullPointer s')
     \<and> 1 \<in> set (sensorIds (create_state (CreateSensor example_ext ?alt ''model'' constructed)))"
    by simp
  from 1 2 show ?thesis by simp
qed

end
